theory Spec2Isabelle
  imports Complex_Main "HOL-Library.AList"
begin

section \<open>Configuration values\<close>

text \<open>
  The configuration module \<^verbatim>\<open>core/config.py\<close> works on the untyped trees that
  \<^verbatim>\<open>yaml.safe_load\<close> produces. A float is one of the finite doubles, given by its
  exact rational value, or one of the three special values; only comparisons are computed on
  floats here, and those are exact. A mapping is an association list kept in insertion
  order, as a Python \<^verbatim>\<open>dict\<close> is; keys are strings (the module annotates every tree as
  \<^verbatim>\<open>Dict[str, Any]\<close>), and text is ASCII.
\<close>

datatype pyfloat = Fin rat | PInf | NInf | NaN

datatype pyval =
    VNone
  | VBool bool
  | VInt int
  | VFloat pyfloat
  | VStr string
  | VList "pyval list"
  | VDict "(string \<times> pyval) list"

text \<open>
  Every \<^verbatim>\<open>raise\<close> of the module and every exception of a built-in it calls is a value.
  \<open>ValueError\<close> and \<open>KeyError\<close> carry their message, \<open>AttributeError\<close>,
  \<open>NameError\<close> and \<open>ImportError\<close> the name that was not found.
\<close>

datatype pyerr =
    ValueError string
  | KeyError string
  | TypeError
  | AttributeError string
  | NameError string
  | ImportError string
  | OverflowError
  | OSError
  | RecursionError

fun is_dict :: "pyval \<Rightarrow> bool" where
  "is_dict (VDict kv) = True"
| "is_dict v = False"

subsection \<open>The built-in operations the merger uses\<close>

text \<open>
  \<^verbatim>\<open>x.copy()\<close> exists on dicts and lists only; \<^verbatim>\<open>key in x\<close> looks among the keys of a
  dict and among the elements of a list; \<^verbatim>\<open>x[key]\<close> and \<^verbatim>\<open>x[key] = v\<close> with a string key
  work on a dict and raise \<open>TypeError\<close> on a list. Item assignment on a dict keeps the
  position of a key that is already there and appends a new one, which is
  \<^const>\<open>AList.update\<close>.
\<close>

fun py_copy :: "pyval \<Rightarrow> pyerr + pyval" where
  "py_copy (VDict kv) = Inr (VDict kv)"
| "py_copy (VList xs) = Inr (VList xs)"
| "py_copy v = Inl (AttributeError ''copy'')"

fun py_contains :: "pyval \<Rightarrow> string \<Rightarrow> bool" where
  "py_contains (VDict kv) key = (key \<in> set (map fst kv))"
| "py_contains (VList xs) key = (VStr key \<in> set xs)"
| "py_contains v key = False"

fun py_getitem :: "pyval \<Rightarrow> string \<Rightarrow> pyerr + pyval" where
  "py_getitem (VDict kv) key =
     (case map_of kv key of None \<Rightarrow> Inl (KeyError key) | Some v \<Rightarrow> Inr v)"
| "py_getitem v key = Inl TypeError"

fun py_setitem :: "pyval \<Rightarrow> string \<Rightarrow> pyval \<Rightarrow> pyerr + pyval" where
  "py_setitem (VDict kv) key v = Inr (VDict (AList.update key v kv))"
| "py_setitem x key v = Inl TypeError"

section \<open>The recursive merger\<close>

text \<open>
  \<^verbatim>\<open>
  def merge_configs(base, override):
      result = base.copy()
      for key, value in override.items():
          if isinstance(value, dict) and key in result:
              result[key] = merge_configs(result[key], value)
          else:
              result[key] = value
      return result
  \<close>
  \<open>merge_items\<close> is the \<^verbatim>\<open>for\<close> loop: it carries \<^verbatim>\<open>result\<close> through the items that are
  left. The test of the loop asks whether the key is in \<^verbatim>\<open>result\<close>, not whether the
  value found there is a dict.
\<close>

fun merge_configs :: "pyval \<Rightarrow> pyval \<Rightarrow> pyerr + pyval"
  and merge_items :: "pyval \<Rightarrow> (string \<times> pyval) list \<Rightarrow> pyerr + pyval" where
  "merge_configs base (VDict ov) =
     (case py_copy base of
        Inl e \<Rightarrow> Inl e
      | Inr result \<Rightarrow> merge_items result ov)"
| "merge_configs base override =
     (case py_copy base of
        Inl e \<Rightarrow> Inl e
      | Inr result \<Rightarrow> Inl (AttributeError ''items''))"
| "merge_items result [] = Inr result"
| "merge_items result ((key, value) # rest) =
     (if is_dict value \<and> py_contains result key then
        (case py_getitem result key of
           Inl e \<Rightarrow> Inl e
         | Inr sub \<Rightarrow>
             (case merge_configs sub value of
                Inl e \<Rightarrow> Inl e
              | Inr merged \<Rightarrow>
                  (case py_setitem result key merged of
                     Inl e \<Rightarrow> Inl e
                   | Inr result' \<Rightarrow> merge_items result' rest)))
      else
        (case py_setitem result key value of
           Inl e \<Rightarrow> Inl e
         | Inr result' \<Rightarrow> merge_items result' rest))"

subsection \<open>The merger on a store of shared objects\<close>

text \<open>
  In Python a dict and a list are objects reached by reference, \<^verbatim>\<open>base.copy()\<close> is a
  shallow copy that shares the nested objects with \<^verbatim>\<open>base\<close>, and \<^verbatim>\<open>result[key] = v\<close>
  writes into an object. To say which objects a call writes, the same function is given on
  an explicit store: an object lives at an address (its index in the store), a container
  holds scalars and addresses, a fresh object is appended to the store. The first argument
  counts the frames that are left before the interpreter's recursion limit is hit.
\<close>

datatype hval = HNone | HBool bool | HInt int | HFloat pyfloat | HStr string | HRef nat

datatype obj = DictObj "(string \<times> hval) list" | ListObj "hval list"

type_synonym store = "obj list"

definition deref :: "store \<Rightarrow> nat \<Rightarrow> obj option" where
  "deref h a = (if a < length h then Some (h ! a) else None)"

fun st_is_dict :: "store \<Rightarrow> hval \<Rightarrow> bool" where
  "st_is_dict h (HRef a) = (case deref h a of Some (DictObj kv) \<Rightarrow> True | _ \<Rightarrow> False)"
| "st_is_dict h v = False"

text \<open>\<^verbatim>\<open>base.copy()\<close>: the new object's address and the store that holds it.\<close>

fun st_copy :: "store \<Rightarrow> hval \<Rightarrow> pyerr + (store \<times> nat)" where
  "st_copy h (HRef a) =
     (case deref h a of
        Some ob \<Rightarrow> Inr (h @ [ob], length h)
      | None \<Rightarrow> Inl (AttributeError ''copy''))"
| "st_copy h v = Inl (AttributeError ''copy'')"

fun st_items :: "store \<Rightarrow> hval \<Rightarrow> pyerr + (string \<times> hval) list" where
  "st_items h (HRef a) =
     (case deref h a of
        Some (DictObj kv) \<Rightarrow> Inr kv
      | _ \<Rightarrow> Inl (AttributeError ''items''))"
| "st_items h v = Inl (AttributeError ''items'')"

definition st_contains :: "store \<Rightarrow> nat \<Rightarrow> string \<Rightarrow> bool" where
  "st_contains h r key =
     (case deref h r of
        Some (DictObj kv) \<Rightarrow> key \<in> set (map fst kv)
      | Some (ListObj xs) \<Rightarrow> HStr key \<in> set xs
      | None \<Rightarrow> False)"

definition st_getitem :: "store \<Rightarrow> nat \<Rightarrow> string \<Rightarrow> pyerr + hval" where
  "st_getitem h r key =
     (case deref h r of
        Some (DictObj kv) \<Rightarrow>
          (case map_of kv key of None \<Rightarrow> Inl (KeyError key) | Some v \<Rightarrow> Inr v)
      | _ \<Rightarrow> Inl TypeError)"

definition st_setitem :: "store \<Rightarrow> nat \<Rightarrow> string \<Rightarrow> hval \<Rightarrow> pyerr + store" where
  "st_setitem h r key v =
     (case deref h r of
        Some (DictObj kv) \<Rightarrow> Inr (h[r := DictObj (AList.update key v kv)])
      | _ \<Rightarrow> Inl TypeError)"

text \<open>
  The loop, with the recursive call as a parameter: \<open>r\<close> is the address of
  \<^verbatim>\<open>result\<close>, the items are those of \<^verbatim>\<open>override\<close>.
\<close>

fun merge_items_st ::
  "(store \<Rightarrow> hval \<Rightarrow> hval \<Rightarrow> store \<times> (pyerr + hval)) \<Rightarrow> nat \<Rightarrow>
   (string \<times> hval) list \<Rightarrow> store \<Rightarrow> store \<times> (pyerr + unit)" where
  "merge_items_st call r [] h = (h, Inr ())"
| "merge_items_st call r ((key, value) # rest) h =
     (if st_is_dict h value \<and> st_contains h r key then
        (case st_getitem h r key of
           Inl e \<Rightarrow> (h, Inl e)
         | Inr sub \<Rightarrow>
             (case call h sub value of
                (h', Inl e) \<Rightarrow> (h', Inl e)
              | (h', Inr merged) \<Rightarrow>
                  (case st_setitem h' r key merged of
                     Inl e \<Rightarrow> (h', Inl e)
                   | Inr h'' \<Rightarrow> merge_items_st call r rest h'')))
      else
        (case st_setitem h r key value of
           Inl e \<Rightarrow> (h, Inl e)
         | Inr h' \<Rightarrow> merge_items_st call r rest h'))"

primrec merge_configs_st :: "nat \<Rightarrow> store \<Rightarrow> hval \<Rightarrow> hval \<Rightarrow> store \<times> (pyerr + hval)" where
  "merge_configs_st 0 h base override = (h, Inl RecursionError)"
| "merge_configs_st (Suc n) h base override =
     (case st_copy h base of
        Inl e \<Rightarrow> (h, Inl e)
      | Inr (h1, result) \<Rightarrow>
          (case st_items h1 override of
             Inl e \<Rightarrow> (h1, Inl e)
           | Inr items \<Rightarrow>
               (case merge_items_st (merge_configs_st n) result items h1 of
                  (h2, Inl e) \<Rightarrow> (h2, Inl e)
                | (h2, Inr u) \<Rightarrow> (h2, Inr (HRef result)))))"

text \<open>A store for the examples: a base at address 0 and an override at address 1, each with
  a nested \<^verbatim>\<open>app\<close> mapping.\<close>

definition example_store :: store where
  "example_store =
     [DictObj [(''app'', HRef 2), (''debug'', HBool True)],
      DictObj [(''app'', HRef 3), (''extra'', HInt 7)],
      DictObj [(''name'', HStr ''traderai''), (''log_level'', HStr ''INFO'')],
      DictObj [(''log_level'', HStr ''DEBUG'')]]"

text \<open>
  The tree that a value of the store stands for: \<open>reads_in A h v t\<close> holds when reading
  \<open>v\<close> in the store \<open>h\<close>, through objects at addresses of \<open>A\<close> only, gives the tree \<open>t\<close>.
  A value that reaches itself stands for no tree.
\<close>

inductive reads_in :: "nat set \<Rightarrow> store \<Rightarrow> hval \<Rightarrow> pyval \<Rightarrow> bool" for A h where
  r_none: "reads_in A h HNone VNone"
| r_bool: "reads_in A h (HBool b) (VBool b)"
| r_int: "reads_in A h (HInt i) (VInt i)"
| r_float: "reads_in A h (HFloat x) (VFloat x)"
| r_str: "reads_in A h (HStr s) (VStr s)"
| r_list: "a \<in> A \<Longrightarrow> deref h a = Some (ListObj xs) \<Longrightarrow> list_all2 (reads_in A h) xs ts \<Longrightarrow>
     reads_in A h (HRef a) (VList ts)"
| r_dict: "a \<in> A \<Longrightarrow> deref h a = Some (DictObj kv) \<Longrightarrow>
     list_all2 (\<lambda>p q. fst p = fst q \<and> reads_in A h (snd p) (snd q)) kv tkv \<Longrightarrow>
     reads_in A h (HRef a) (VDict tkv)"

definition obj_reads :: "nat set \<Rightarrow> store \<Rightarrow> obj \<Rightarrow> pyval \<Rightarrow> bool" where
  "obj_reads A h ob t =
     (case ob of
        DictObj kv \<Rightarrow>
          (\<exists>tkv. t = VDict tkv \<and>
             list_all2 (\<lambda>p q. fst p = fst q \<and> reads_in A h (snd p) (snd q)) kv tkv)
      | ListObj xs \<Rightarrow> (\<exists>ts. t = VList ts \<and> list_all2 (reads_in A h) xs ts))"

definition refines_out :: "nat set \<Rightarrow> store \<Rightarrow> pyerr + hval \<Rightarrow> pyerr + pyval \<Rightarrow> bool" where
  "refines_out A h out pure =
     (case out of
        Inl e \<Rightarrow> pure = Inl e
      | Inr res \<Rightarrow> (\<exists>t. pure = Inr t \<and> reads_in A h res t))"

text \<open>How deep mappings are nested in a tree: the number of frames a merge with this
  override needs is one more.\<close>

fun dict_depth :: "pyval \<Rightarrow> nat" where
  "dict_depth (VDict kv) = Suc (foldr max (map (\<lambda>p. dict_depth (snd p)) kv) 0)"
| "dict_depth v = 0"

text \<open>
  The pairs of trees on which the merger returns, as is proved below: the base is a
  mapping, or a list under an override without items; the override is a mapping and has
  no key twice; and wherever the override has a mapping under a key that the base has, the
  base's value and that mapping are such a pair again. In a tree with \<open>distinct_keys\<close> no
  mapping has a key twice, as in every \<^verbatim>\<open>dict\<close>.
\<close>

fun mergeable :: "pyval \<Rightarrow> pyval \<Rightarrow> bool" where
  "mergeable (VDict bkv) (VDict okv) =
     (distinct (map fst okv) \<and>
      (\<forall>p \<in> set okv. is_dict (snd p) \<and> py_contains (VDict bkv) (fst p) \<longrightarrow>
         (case map_of bkv (fst p) of
            Some sub \<Rightarrow> mergeable sub (snd p)
          | None \<Rightarrow> False)))"
| "mergeable (VList xs) (VDict okv) = (okv = [])"
| "mergeable base override = False"

fun distinct_keys :: "pyval \<Rightarrow> bool" where
  "distinct_keys (VDict kv) = (distinct (map fst kv) \<and> (\<forall>p \<in> set kv. distinct_keys (snd p)))"
| "distinct_keys (VList xs) = (\<forall>x \<in> set xs. distinct_keys x)"
| "distinct_keys v = True"

section \<open>The YAML loader\<close>

text \<open>
  \<^verbatim>\<open>
  def load_yaml(file_path):
      try:
          with open(file_path, "r") as f:
              return yaml.safe_load(f) or {}
      except FileNotFoundError:
          return {}
      except yaml.YAMLError as e:
          raise ValueError(f"Error parsing YAML file {file_path}: {e}")
  \<close>
  The parser is a library. A path of the file system is in one of four states: there is no
  file; opening or reading it raises an exception that is neither \<^verbatim>\<open>FileNotFoundError\<close>
  nor a \<^verbatim>\<open>YAMLError\<close>; the parser rejects the text with a diagnostic; the parser returns
  a value (\<^verbatim>\<open>None\<close> for an empty document).
\<close>

datatype yaml_file = Absent | Unreadable pyerr | Malformed string | Document pyval

fun truthy :: "pyval \<Rightarrow> bool" where
  "truthy VNone = False"
| "truthy (VBool b) = b"
| "truthy (VInt i) = (i \<noteq> 0)"
| "truthy (VFloat x) = (x \<noteq> Fin 0)"
| "truthy (VStr s) = (s \<noteq> [])"
| "truthy (VList xs) = (xs \<noteq> [])"
| "truthy (VDict kv) = (kv \<noteq> [])"

definition load_yaml :: "(string \<Rightarrow> yaml_file) \<Rightarrow> string \<Rightarrow> pyerr + pyval" where
  "load_yaml fs file_path =
     (case fs file_path of
        Absent \<Rightarrow> Inr (VDict [])
      | Unreadable e \<Rightarrow> Inl e
      | Malformed diagnostic \<Rightarrow>
          Inl (ValueError (''Error parsing YAML file '' @ file_path @ '': '' @ diagnostic))
      | Document v \<Rightarrow> Inr (if truthy v then v else VDict []))"

section \<open>Built-in functions on strings and numbers\<close>

text \<open>
  The override builder calls \<^verbatim>\<open>str.upper\<close>, \<^verbatim>\<open>__str__\<close>, \<^verbatim>\<open>str.split\<close>, \<^verbatim>\<open>float\<close>
  and \<^verbatim>\<open>int\<close>. Text is ASCII here. What the interpreter and the libraries compute and the
  module does not (the float a string or an integer converts to, the message of the
  \<open>ValueError\<close> that \<^verbatim>\<open>float\<close> and \<^verbatim>\<open>int\<close> raise for a string they do not parse, the
  digits of a float, what the schema library accepts for a field of a given type and how it
  prints its failures) is a field of the record \<open>externals\<close>, a parameter of every function
  that needs it.
\<close>

definition upper_char :: "char \<Rightarrow> char" where
  "upper_char c =
     (case map_of (zip ''abcdefghijklmnopqrstuvwxyz'' ''ABCDEFGHIJKLMNOPQRSTUVWXYZ'') c of
        Some u \<Rightarrow> u
      | None \<Rightarrow> c)"

definition upper :: "string \<Rightarrow> string" where
  "upper s = map upper_char s"

text \<open>\<^verbatim>\<open>s.split(sep)\<close> for a separator of one character: never the empty list.\<close>

fun split_on :: "char \<Rightarrow> string \<Rightarrow> string list" where
  "split_on sep [] = [[]]"
| "split_on sep (c # cs) =
     (if c = sep then [] # split_on sep cs
      else (case split_on sep cs of
              [] \<Rightarrow> [[c]]
            | w # ws \<Rightarrow> (c # w) # ws))"

fun join :: "string \<Rightarrow> string list \<Rightarrow> string" where
  "join sep [] = []"
| "join sep [x] = x"
| "join sep (x # y # ys) = x @ sep @ join sep (y # ys)"

fun digits_of :: "nat \<Rightarrow> string" where
  "digits_of n =
     (if n < 10 then [''0123456789'' ! n]
      else digits_of (n div 10) @ [''0123456789'' ! (n mod 10)])"

definition repr_int :: "int \<Rightarrow> string" where
  "repr_int i = (if i < 0 then ''-'' @ digits_of (nat (- i)) else digits_of (nat i))"

text \<open>
  \<^verbatim>\<open>repr\<close> of a string: single quotes, unless the string has a single quote and no double
  quote; a backslash before a backslash and before the quote in use; \<^verbatim>\<open>\t\<close>, \<^verbatim>\<open>\n\<close>,
  \<^verbatim>\<open>\r\<close>; two hexadecimal digits for the other characters that do not print.
\<close>

definition hex2 :: "nat \<Rightarrow> string" where
  "hex2 n = [''0123456789abcdef'' ! (n div 16 mod 16), ''0123456789abcdef'' ! (n mod 16)]"

definition repr_char :: "char \<Rightarrow> char \<Rightarrow> string" where
  "repr_char quote c =
     (if c = CHR 0x5C then [CHR 0x5C, CHR 0x5C]
      else if c = quote then [CHR 0x5C, quote]
      else if c = CHR 0x09 then [CHR 0x5C, CHR ''t'']
      else if c = CHR 0x0A then [CHR 0x5C, CHR ''n'']
      else if c = CHR 0x0D then [CHR 0x5C, CHR ''r'']
      else if (of_char c :: nat) < 32 \<or> 127 \<le> (of_char c :: nat)
        then [CHR 0x5C, CHR ''x''] @ hex2 (of_char c)
      else [c])"

definition repr_str :: "string \<Rightarrow> string" where
  "repr_str s =
     (let quote = (if CHR 0x27 \<in> set s \<and> CHR 0x22 \<notin> set s then CHR 0x22 else CHR 0x27)
      in [quote] @ concat (map (repr_char quote) s) @ [quote])"

text \<open>
  A failure of the schema library: the place of the field and what is wrong with it.
\<close>

datatype vkind =
    FieldRequired
  | WrongType
  | NotGreaterThan rat
  | NotLessEqual rat
  | TooShort nat
  | ValidatorError pyerr
  | ExtraForbidden

type_synonym verr = "string list \<times> vkind"

record externals =
  float_of_str :: "string \<Rightarrow> pyfloat option"
  float_of_int :: "int \<Rightarrow> pyfloat option"
  int_of_str :: "string \<Rightarrow> int option"
  float_error_text :: "string \<Rightarrow> string"
  int_error_text :: "string \<Rightarrow> string"
  repr_float :: "pyfloat \<Rightarrow> string"
  as_str :: "pyval \<Rightarrow> string option"
  as_float :: "pyval \<Rightarrow> pyfloat option"
  as_int :: "pyval \<Rightarrow> int option"
  validation_text :: "verr list \<Rightarrow> string"

fun py_repr :: "externals \<Rightarrow> pyval \<Rightarrow> string" where
  "py_repr X VNone = ''None''"
| "py_repr X (VBool b) = (if b then ''True'' else ''False'')"
| "py_repr X (VInt i) = repr_int i"
| "py_repr X (VFloat x) = repr_float X x"
| "py_repr X (VStr s) = repr_str s"
| "py_repr X (VList xs) = ''['' @ join '', '' (map (py_repr X) xs) @ '']''"
| "py_repr X (VDict kv) =
     ''{'' @ join '', '' (map (\<lambda>p. repr_str (fst p) @ '': '' @ py_repr X (snd p)) kv) @ ''}''"

text \<open>\<^verbatim>\<open>x.__str__()\<close>: a string is itself, every other value is printed by \<^verbatim>\<open>repr\<close>.\<close>

fun py_str :: "externals \<Rightarrow> pyval \<Rightarrow> string" where
  "py_str X (VStr s) = s"
| "py_str X v = py_repr X v"

text \<open>
  \<^verbatim>\<open>float(x)\<close> and \<^verbatim>\<open>int(x)\<close>. A string that does not parse is a \<open>ValueError\<close>; its
  message is the interpreter's (\<^verbatim>\<open>int\<close> shows at most 200 characters of the string's
  \<^verbatim>\<open>repr\<close> and has another message for a string of too many digits), so it is read from
  \<open>float_error_text\<close> and \<open>int_error_text\<close>. A value of another type than a number or a
  string is a \<open>TypeError\<close>; \<^verbatim>\<open>int\<close> of a float truncates towards zero.
\<close>

fun py_float :: "externals \<Rightarrow> pyval \<Rightarrow> pyerr + pyfloat" where
  "py_float X (VFloat x) = Inr x"
| "py_float X (VInt i) =
     (case float_of_int X i of None \<Rightarrow> Inl OverflowError | Some x \<Rightarrow> Inr x)"
| "py_float X (VBool b) = Inr (Fin (if b then 1 else 0))"
| "py_float X (VStr s) =
     (case float_of_str X s of
        None \<Rightarrow> Inl (ValueError (float_error_text X s))
      | Some x \<Rightarrow> Inr x)"
| "py_float X v = Inl TypeError"

fun py_int :: "externals \<Rightarrow> pyval \<Rightarrow> pyerr + int" where
  "py_int X (VInt i) = Inr i"
| "py_int X (VBool b) = Inr (if b then 1 else 0)"
| "py_int X (VFloat (Fin q)) = Inr (if q < 0 then - \<lfloor>- q\<rfloor> else \<lfloor>q\<rfloor>)"
| "py_int X (VFloat NaN) = Inl (ValueError ''cannot convert float NaN to integer'')"
| "py_int X (VFloat x) = Inl OverflowError"
| "py_int X (VStr s) =
     (case int_of_str X s of
        None \<Rightarrow> Inl (ValueError (int_error_text X s))
      | Some i \<Rightarrow> Inr i)"
| "py_int X v = Inl TypeError"

section \<open>The environment overrides\<close>

text \<open>
  \<^verbatim>\<open>os.getenv(name, default)\<close> is the variable's string when it is set and the default,
  of whatever type, when it is not; \<^verbatim>\<open>x.get(key, default)\<close> exists on a dict only.
\<close>

definition getenv :: "(string \<Rightarrow> string option) \<Rightarrow> string \<Rightarrow> pyval \<Rightarrow> pyval" where
  "getenv environ name dflt = (case environ name of Some s \<Rightarrow> VStr s | None \<Rightarrow> dflt)"

fun py_get :: "pyval \<Rightarrow> string \<Rightarrow> pyval \<Rightarrow> pyerr + pyval" where
  "py_get (VDict kv) key dflt = Inr (case map_of kv key of Some v \<Rightarrow> v | None \<Rightarrow> dflt)"
| "py_get v key dflt = Inl (AttributeError ''get'')"

text \<open>Sequencing: the first exception ends the evaluation.\<close>

fun and_then :: "'err + 'v \<Rightarrow> ('v \<Rightarrow> 'err + 'w) \<Rightarrow> 'err + 'w" where
  "and_then (Inl err) rest = Inl err"
| "and_then (Inr v) rest = rest v"

definition get2 :: "pyval \<Rightarrow> string \<Rightarrow> string \<Rightarrow> pyval \<Rightarrow> pyerr + pyval" where
  "get2 config a b dflt = and_then (py_get config a (VDict [])) (\<lambda>x. py_get x b dflt)"

definition get3 :: "pyval \<Rightarrow> string \<Rightarrow> string \<Rightarrow> string \<Rightarrow> pyval \<Rightarrow> pyerr + pyval" where
  "get3 config a b c dflt =
     and_then (py_get config a (VDict [])) (\<lambda>x.
     and_then (py_get x b (VDict [])) (\<lambda>y. py_get y c dflt))"

text \<open>The literals \<^verbatim>\<open>0.1\<close>, \<^verbatim>\<open>0.2\<close> and \<^verbatim>\<open>0.05\<close>: the doubles nearest to them.\<close>

definition float_0_1 :: pyfloat where
  "float_0_1 = Fin (3602879701896397 / 36028797018963968)"

definition float_0_2 :: pyfloat where
  "float_0_2 = Fin (3602879701896397 / 18014398509481984)"

definition float_0_05 :: pyfloat where
  "float_0_05 = Fin (3602879701896397 / 72057594037927936)"

text \<open>
  One element of the comprehension over the providers:
  \<^verbatim>\<open>
  {**provider,
   "api_key": os.getenv(f"{provider['name'].upper()}_API_KEY", provider.get("api_key")),
   "secret_key": os.getenv(f"{provider['name'].upper()}_SECRET_KEY", provider.get("secret_key"))}
  \<close>
  \<^verbatim>\<open>**provider\<close> needs a mapping, \<^verbatim>\<open>provider['name']\<close> the key, \<^verbatim>\<open>.upper()\<close> a string.
\<close>

fun py_upper :: "pyval \<Rightarrow> pyerr + string" where
  "py_upper (VStr s) = Inr (upper s)"
| "py_upper v = Inl (AttributeError ''upper'')"

fun provider_override :: "(string \<Rightarrow> string option) \<Rightarrow> pyval \<Rightarrow> pyerr + pyval" where
  "provider_override environ (VDict kv) =
     and_then (py_getitem (VDict kv) ''name'') (\<lambda>n1.
     and_then (py_upper n1) (\<lambda>u1.
     and_then (py_get (VDict kv) ''api_key'' VNone) (\<lambda>d1.
     and_then (py_getitem (VDict kv) ''name'') (\<lambda>n2.
     and_then (py_upper n2) (\<lambda>u2.
     and_then (py_get (VDict kv) ''secret_key'' VNone) (\<lambda>d2.
       Inr (VDict (AList.update ''secret_key'' (getenv environ (u2 @ ''_SECRET_KEY'') d2)
                    (AList.update ''api_key'' (getenv environ (u1 @ ''_API_KEY'') d1) kv)))))))))"
| "provider_override environ v = Inl TypeError"

text \<open>What \<^verbatim>\<open>for provider in x\<close> runs over: the elements of a list, the keys of a dict, the
  characters of a string; no other value is iterable.\<close>

fun py_iter :: "pyval \<Rightarrow> pyerr + pyval list" where
  "py_iter (VList xs) = Inr xs"
| "py_iter (VDict kv) = Inr (map (\<lambda>p. VStr (fst p)) kv)"
| "py_iter (VStr s) = Inr (map (\<lambda>c. VStr [c]) s)"
| "py_iter v = Inl TypeError"

fun provider_overrides ::
  "(string \<Rightarrow> string option) \<Rightarrow> pyval list \<Rightarrow> pyerr + pyval list" where
  "provider_overrides environ [] = Inr []"
| "provider_overrides environ (p # ps) =
     and_then (provider_override environ p) (\<lambda>q.
     and_then (provider_overrides environ ps) (\<lambda>qs. Inr (q # qs)))"

text \<open>
  The dict display that \<^verbatim>\<open>get_settings\<close> merges onto the configuration, its entries
  evaluated in the order in which they are written:
  \<^verbatim>\<open>
  {"app": {"name": os.getenv("APP_NAME", config.get("app", {}).get("name")),
           "log_level": os.getenv("LOG_LEVEL", config.get("app", {}).get("log_level"))},
   "data": {"providers": [... for provider in config.get("data", {}).get("providers", [])],
            "cache": {"redis_url": os.getenv("REDIS_URL",
                config.get("data", {}).get("cache", {}).get("redis_url"))}},
   "trading": {
     "markets": os.getenv("MARKETS",
         config.get("trading", {}).get("markets", [])).__str__().split(","),
     "max_position_size": float(os.getenv("MAX_POSITION_SIZE",
         config.get("trading", {}).get("max_position_size", 0.1))),
     "risk": {
       "max_drawdown": float(os.getenv("MAX_DRAWDOWN",
           config.get("trading", {}).get("risk", {}).get("max_drawdown", 0.2))),
       "var_limit": float(os.getenv("VAR_LIMIT",
           config.get("trading", {}).get("risk", {}).get("var_limit", 0.05))),
       "max_latency_ms": int(os.getenv("MAX_LATENCY_MS",
           config.get("trading", {}).get("risk", {}).get("max_latency_ms", 1000)))}}}
  \<close>
\<close>

definition env_overrides ::
  "externals \<Rightarrow> (string \<Rightarrow> string option) \<Rightarrow> pyval \<Rightarrow> pyerr + pyval" where
  "env_overrides X environ config =
     and_then (get2 config ''app'' ''name'' VNone) (\<lambda>name.
     and_then (get2 config ''app'' ''log_level'' VNone) (\<lambda>log_level.
     and_then (get2 config ''data'' ''providers'' (VList [])) (\<lambda>ps.
     and_then (py_iter ps) (\<lambda>elems.
     and_then (provider_overrides environ elems) (\<lambda>providers.
     and_then (get3 config ''data'' ''cache'' ''redis_url'' VNone) (\<lambda>redis_url.
     and_then (get2 config ''trading'' ''markets'' (VList [])) (\<lambda>markets.
     and_then (get2 config ''trading'' ''max_position_size'' (VFloat float_0_1)) (\<lambda>mps.
     and_then (py_float X (getenv environ ''MAX_POSITION_SIZE'' mps)) (\<lambda>max_position_size.
     and_then (get3 config ''trading'' ''risk'' ''max_drawdown'' (VFloat float_0_2)) (\<lambda>md.
     and_then (py_float X (getenv environ ''MAX_DRAWDOWN'' md)) (\<lambda>max_drawdown.
     and_then (get3 config ''trading'' ''risk'' ''var_limit'' (VFloat float_0_05)) (\<lambda>vl.
     and_then (py_float X (getenv environ ''VAR_LIMIT'' vl)) (\<lambda>var_limit.
     and_then (get3 config ''trading'' ''risk'' ''max_latency_ms'' (VInt 1000)) (\<lambda>ml.
     and_then (py_int X (getenv environ ''MAX_LATENCY_MS'' ml)) (\<lambda>max_latency_ms.
       Inr (VDict
         [(''app'', VDict
             [(''name'', getenv environ ''APP_NAME'' name),
              (''log_level'', getenv environ ''LOG_LEVEL'' log_level)]),
          (''data'', VDict
             [(''providers'', VList providers),
              (''cache'', VDict [(''redis_url'', getenv environ ''REDIS_URL'' redis_url)])]),
          (''trading'', VDict
             [(''markets'',
                 VList (map VStr (split_on CHR '','' (py_str X (getenv environ ''MARKETS'' markets))))),
              (''max_position_size'', VFloat max_position_size),
              (''risk'', VDict
                 [(''max_drawdown'', VFloat max_drawdown),
                  (''var_limit'', VFloat var_limit),
                  (''max_latency_ms'', VInt max_latency_ms)])])]))))))))))))))))"

section \<open>The strategy and rules loaders\<close>

text \<open>
  The process's surroundings: the state of every path, what \<^verbatim>\<open>dir.glob("*.yaml")\<close> yields
  for a directory (the paths, in the order of the iteration; nothing for a directory that
  does not exist), and the environment variables.
\<close>

record world =
  files :: "string \<Rightarrow> yaml_file"
  glob_yaml :: "string \<Rightarrow> string list"
  environ :: "string \<Rightarrow> string option"

text \<open>
  \<^verbatim>\<open>StrategyConfig\<close> and \<^verbatim>\<open>RiskPolicy\<close> are classes of \<^verbatim>\<open>core.types\<close>, which is not
  part of the module: each is given by what its constructor does with keyword arguments.
\<close>

record ('s, 'r) core_types =
  StrategyConfig :: "(string \<times> pyval) list \<Rightarrow> pyerr + 's"
  RiskPolicy :: "(string \<times> pyval) list \<Rightarrow> pyerr + 'r"

text \<open>\<^verbatim>\<open>file_path.stem\<close>: the last component of the path without its last suffix.\<close>

definition stem :: "string \<Rightarrow> string" where
  "stem file_path =
     (let name = last (split_on CHR ''/'' file_path);
          ext = takeWhile (\<lambda>c. c \<noteq> CHR ''.'') (rev name)
      in if CHR ''.'' \<in> set name \<and> ext \<noteq> [] \<and> length ext + 1 < length name
         then take (length name - length ext - 1) name
         else name)"

text \<open>\<^verbatim>\<open>C(**x)\<close>: the keyword arguments must come from a mapping.\<close>

fun construct_kw :: "((string \<times> pyval) list \<Rightarrow> pyerr + 'a) \<Rightarrow> pyval \<Rightarrow> pyerr + 'a" where
  "construct_kw cls (VDict kv) = cls kv"
| "construct_kw cls v = Inl TypeError"

text \<open>
  \<^verbatim>\<open>
  def load_strategy_configs(strategy_dir):
      strategies = {}
      for file_path in strategy_dir.glob("*.yaml"):
          strategy_name = file_path.stem
          data = load_yaml(file_path)
          strategies[strategy_name] = StrategyConfig(**data["strategy"])
      return strategies
  \<close>
  \<^verbatim>\<open>load_rules_configs\<close> is the same loop with the section \<^verbatim>\<open>"risk"\<close> and the class
  \<^verbatim>\<open>RiskPolicy\<close>; \<open>load_section_files\<close> is that loop, for the paths that are left and
  the dict built so far.
\<close>

fun load_section_files ::
  "(string \<Rightarrow> yaml_file) \<Rightarrow> string \<Rightarrow> ((string \<times> pyval) list \<Rightarrow> pyerr + 'a) \<Rightarrow>
   string list \<Rightarrow> (string \<times> 'a) list \<Rightarrow> pyerr + (string \<times> 'a) list" where
  "load_section_files fs sect cls [] acc = Inr acc"
| "load_section_files fs sect cls (file_path # rest) acc =
     and_then (load_yaml fs file_path) (\<lambda>data.
     and_then (py_getitem data sect) (\<lambda>kwargs.
     and_then (construct_kw cls kwargs) (\<lambda>item.
       load_section_files fs sect cls rest (AList.update (stem file_path) item acc))))"

definition load_strategy_configs ::
  "('s, 'r) core_types \<Rightarrow> world \<Rightarrow> string \<Rightarrow> pyerr + (string \<times> 's) list" where
  "load_strategy_configs T W strategy_dir =
     load_section_files (files W) ''strategy'' (StrategyConfig T) (glob_yaml W strategy_dir) []"

definition load_rules_configs ::
  "('s, 'r) core_types \<Rightarrow> world \<Rightarrow> string \<Rightarrow> pyerr + (string \<times> 'r) list" where
  "load_rules_configs T W rules_dir =
     load_section_files (files W) ''risk'' (RiskPolicy T) (glob_yaml W rules_dir) []"

section \<open>The schema\<close>

text \<open>
  The models are classes of a schema library: constructing one checks every field and
  raises one error that lists every failure with the place of the field. A field's check
  is a function to the checked value or the failures; \<open>at_field\<close> puts the field's name in
  front of the places.
\<close>

fun errs_of :: "verr list + 'a \<Rightarrow> verr list" where
  "errs_of (Inl es) = es"
| "errs_of (Inr x) = []"

definition at_field :: "string \<Rightarrow> verr list + 'a \<Rightarrow> verr list + 'a" where
  "at_field f r = (case r of Inl es \<Rightarrow> Inl (map (\<lambda>e. (f # fst e, snd e)) es) | Inr x \<Rightarrow> Inr x)"

definition required ::
  "(string \<times> pyval) list \<Rightarrow> string \<Rightarrow> (pyval \<Rightarrow> verr list + 'a) \<Rightarrow> verr list + 'a" where
  "required kv f check =
     (case map_of kv f of
        None \<Rightarrow> Inl [([f], FieldRequired)]
      | Some v \<Rightarrow> at_field f (check v))"

definition with_default ::
  "(string \<times> pyval) list \<Rightarrow> string \<Rightarrow> 'a \<Rightarrow> (pyval \<Rightarrow> verr list + 'a) \<Rightarrow> verr list + 'a" where
  "with_default kv f dflt check =
     (case map_of kv f of
        None \<Rightarrow> Inr dflt
      | Some v \<Rightarrow> at_field f (check v))"

definition str_field :: "externals \<Rightarrow> pyval \<Rightarrow> verr list + string" where
  "str_field X v = (case as_str X v of None \<Rightarrow> Inl [([], WrongType)] | Some s \<Rightarrow> Inr s)"

definition float_field :: "externals \<Rightarrow> pyval \<Rightarrow> verr list + pyfloat" where
  "float_field X v = (case as_float X v of None \<Rightarrow> Inl [([], WrongType)] | Some x \<Rightarrow> Inr x)"

definition int_field :: "externals \<Rightarrow> pyval \<Rightarrow> verr list + int" where
  "int_field X v = (case as_int X v of None \<Rightarrow> Inl [([], WrongType)] | Some i \<Rightarrow> Inr i)"

fun optional :: "(pyval \<Rightarrow> verr list + 'a) \<Rightarrow> pyval \<Rightarrow> verr list + 'a option" where
  "optional check VNone = Inr None"
| "optional check v = and_then (check v) (\<lambda>x. Inr (Some x))"

fun model_field :: "((string \<times> pyval) list \<Rightarrow> verr list + 'a) \<Rightarrow> pyval \<Rightarrow> verr list + 'a" where
  "model_field check (VDict kv) = check kv"
| "model_field check v = Inl [([], WrongType)]"

fun list_items :: "(pyval \<Rightarrow> verr list + 'a) \<Rightarrow> nat \<Rightarrow> pyval list \<Rightarrow> (verr list + 'a) list" where
  "list_items check i [] = []"
| "list_items check i (v # vs) = at_field (digits_of i) (check v) # list_items check (Suc i) vs"

fun list_field :: "(pyval \<Rightarrow> verr list + 'a) \<Rightarrow> pyval \<Rightarrow> verr list + 'a list" where
  "list_field check (VList vs) =
     (let rs = list_items check 0 vs
      in if concat (map errs_of rs) = [] then Inr (map projr rs)
         else Inl (concat (map errs_of rs)))"
| "list_field check v = Inl [([], WrongType)]"

text \<open>A function decorated with \<^verbatim>\<open>@validator\<close>: its \<^verbatim>\<open>ValueError\<close> is a failure of the field.\<close>

definition run_validator :: "('a \<Rightarrow> pyerr + 'a) \<Rightarrow> 'a \<Rightarrow> verr list + 'a" where
  "run_validator f v = (case f v of Inl e \<Rightarrow> Inl [([], ValidatorError e)] | Inr x \<Rightarrow> Inr x)"

text \<open>\<^verbatim>\<open>Field(..., gt=0, le=1)\<close> on a float. Every comparison with NaN is false.\<close>

fun float_gt :: "pyfloat \<Rightarrow> rat \<Rightarrow> bool" where
  "float_gt (Fin q) c = (c < q)"
| "float_gt PInf c = True"
| "float_gt NInf c = False"
| "float_gt NaN c = False"

fun float_le :: "pyfloat \<Rightarrow> rat \<Rightarrow> bool" where
  "float_le (Fin q) c = (q \<le> c)"
| "float_le PInf c = False"
| "float_le NInf c = True"
| "float_le NaN c = False"

definition fraction_field :: "externals \<Rightarrow> pyval \<Rightarrow> verr list + pyfloat" where
  "fraction_field X v =
     and_then (float_field X v) (\<lambda>x.
       if \<not> float_gt x 0 then Inl [([], NotGreaterThan 0)]
       else if \<not> float_le x 1 then Inl [([], NotLessEqual 1)]
       else Inr x)"

definition repr_strs :: "string list \<Rightarrow> string" where
  "repr_strs xs = ''['' @ join '', '' (map repr_str xs) @ '']''"

subsection \<open>The classes\<close>

record DataProviderConfig =
  name :: string
  api_key :: "string option"
  secret_key :: "string option"
  endpoint :: string

definition valid_providers :: "string list" where
  "valid_providers = [''alpaca'', ''binance'', ''oanda'', ''polygon'', ''csv'']"

definition validate_provider_name :: "string \<Rightarrow> pyerr + string" where
  "validate_provider_name v =
     (if v \<notin> set valid_providers
      then Inl (ValueError (''Provider must be one of '' @ repr_strs valid_providers))
      else Inr v)"

definition DataProviderConfig_new ::
  "externals \<Rightarrow> (string \<times> pyval) list \<Rightarrow> verr list + DataProviderConfig" where
  "DataProviderConfig_new X kv =
     (let r_name = required kv ''name'' (\<lambda>v.
            and_then (str_field X v) (\<lambda>s.
              if length s < 1 then Inl [([], TooShort 1)]
              else run_validator validate_provider_name s));
          r_api_key = with_default kv ''api_key'' None (optional (str_field X));
          r_secret_key = with_default kv ''secret_key'' None (optional (str_field X));
          r_endpoint = required kv ''endpoint'' (str_field X);
          es = errs_of r_name @ errs_of r_api_key @ errs_of r_secret_key @ errs_of r_endpoint
      in if es = [] then
           Inr \<lparr>DataProviderConfig.name = projr r_name, api_key = projr r_api_key,
                secret_key = projr r_secret_key, endpoint = projr r_endpoint\<rparr>
         else Inl es)"

record CacheConfig =
  redis_url :: string

definition CacheConfig_new :: "externals \<Rightarrow> (string \<times> pyval) list \<Rightarrow> verr list + CacheConfig" where
  "CacheConfig_new X kv =
     (let r_redis_url = with_default kv ''redis_url'' ''redis://localhost:6379/0'' (str_field X);
          es = errs_of r_redis_url
      in if es = [] then Inr \<lparr>redis_url = projr r_redis_url\<rparr> else Inl es)"

record RiskConfig =
  max_drawdown :: pyfloat
  var_limit :: pyfloat
  max_latency_ms :: "int option"

definition RiskConfig_new :: "externals \<Rightarrow> (string \<times> pyval) list \<Rightarrow> verr list + RiskConfig" where
  "RiskConfig_new X kv =
     (let r_max_drawdown = required kv ''max_drawdown'' (fraction_field X);
          r_var_limit = required kv ''var_limit'' (fraction_field X);
          r_max_latency_ms = with_default kv ''max_latency_ms'' None (optional (int_field X));
          es = errs_of r_max_drawdown @ errs_of r_var_limit @ errs_of r_max_latency_ms
      in if es = [] then
           Inr \<lparr>max_drawdown = projr r_max_drawdown, var_limit = projr r_var_limit,
                max_latency_ms = projr r_max_latency_ms\<rparr>
         else Inl es)"

record TradingConfig =
  markets :: "string list"
  max_position_size :: pyfloat
  risk :: RiskConfig

definition valid_markets :: "string list" where
  "valid_markets = [''stocks'', ''crypto'', ''forex'', ''commodities'']"

definition validate_markets :: "string list \<Rightarrow> pyerr + string list" where
  "validate_markets v =
     (if \<not> list_all (\<lambda>m. m \<in> set valid_markets) v
      then Inl (ValueError (''Markets must be subset of '' @ repr_strs valid_markets))
      else Inr v)"

definition TradingConfig_new ::
  "externals \<Rightarrow> (string \<times> pyval) list \<Rightarrow> verr list + TradingConfig" where
  "TradingConfig_new X kv =
     (let r_markets = required kv ''markets'' (\<lambda>v.
            and_then (list_field (str_field X) v) (run_validator validate_markets));
          r_max_position_size = required kv ''max_position_size'' (fraction_field X);
          r_risk = required kv ''risk'' (model_field (RiskConfig_new X));
          es = errs_of r_markets @ errs_of r_max_position_size @ errs_of r_risk
      in if es = [] then
           Inr \<lparr>markets = projr r_markets, max_position_size = projr r_max_position_size,
                risk = projr r_risk\<rparr>
         else Inl es)"

record AppConfig =
  name :: string
  log_level :: string

definition valid_levels :: "string list" where
  "valid_levels = [''DEBUG'', ''INFO'', ''WARNING'', ''ERROR'', ''CRITICAL'']"

definition validate_log_level :: "string \<Rightarrow> pyerr + string" where
  "validate_log_level v =
     (if v \<notin> set valid_levels
      then Inl (ValueError (''Log level must be one of '' @ repr_strs valid_levels))
      else Inr v)"

definition AppConfig_new :: "externals \<Rightarrow> (string \<times> pyval) list \<Rightarrow> verr list + AppConfig" where
  "AppConfig_new X kv =
     (let r_name = with_default kv ''name'' ''traderai'' (str_field X);
          r_log_level = with_default kv ''log_level'' ''INFO'' (\<lambda>v.
            and_then (str_field X v) (run_validator validate_log_level));
          es = errs_of r_name @ errs_of r_log_level
      in if es = [] then
           Inr \<lparr>AppConfig.name = projr r_name, log_level = projr r_log_level\<rparr>
         else Inl es)"

record DataConfig =
  providers :: "DataProviderConfig list"
  cache :: CacheConfig

definition DataConfig_new :: "externals \<Rightarrow> (string \<times> pyval) list \<Rightarrow> verr list + DataConfig" where
  "DataConfig_new X kv =
     (let r_providers = required kv ''providers''
            (list_field (model_field (DataProviderConfig_new X)));
          r_cache = required kv ''cache'' (model_field (CacheConfig_new X));
          es = errs_of r_providers @ errs_of r_cache
      in if es = [] then Inr \<lparr>providers = projr r_providers, cache = projr r_cache\<rparr>
         else Inl es)"

text \<open>
  \<^verbatim>\<open>
  class Settings(BaseModel):
      app: AppConfig
      data: DataConfig
      trading: TradingConfig
      strategies: Dict[str, StrategyConfig] = {}
      rules: Dict[str, RiskPolicy] = {}

      class Config:
          extra = "forbid"
  \<close>
  \<^verbatim>\<open>get_settings\<close> stores the two loaders' results under \<^verbatim>\<open>"strategies"\<close> and
  \<^verbatim>\<open>"rules"\<close> before it calls \<^verbatim>\<open>Settings(**config)\<close>, so these two arguments are
  dicts of instances of their classes: they are passed beside the tree, whose own entries
  under these two keys they have replaced. With \<^verbatim>\<open>extra = "forbid"\<close> every keyword that
  is not a field is a failure.
\<close>

record ('s, 'r) Settings =
  app :: AppConfig
  data :: DataConfig
  trading :: TradingConfig
  strategies :: "(string \<times> 's) list"
  rules :: "(string \<times> 'r) list"

definition Settings_fields :: "string list" where
  "Settings_fields = [''app'', ''data'', ''trading'', ''strategies'', ''rules'']"

definition Settings_new ::
  "externals \<Rightarrow> (string \<times> pyval) list \<Rightarrow> (string \<times> 's) list \<Rightarrow> (string \<times> 'r) list \<Rightarrow>
   verr list + ('s, 'r) Settings" where
  "Settings_new X config strategies_arg rules_arg =
     (let r_app = required config ''app'' (model_field (AppConfig_new X));
          r_data = required config ''data'' (model_field (DataConfig_new X));
          r_trading = required config ''trading'' (model_field (TradingConfig_new X));
          extra = map (\<lambda>k. ([k], ExtraForbidden))
                    (filter (\<lambda>k. k \<notin> set Settings_fields) (map fst config));
          es = errs_of r_app @ errs_of r_data @ errs_of r_trading @ extra
      in if es = [] then
           Inr \<lparr>app = projr r_app, data = projr r_data, trading = projr r_trading,
                strategies = strategies_arg, rules = rules_arg\<rparr>
         else Inl es)"

section \<open>Loading the settings\<close>

text \<open>
  Modelled from the spec: the \<^verbatim>\<open>Environment\<close> enumeration of \<^verbatim>\<open>core.constants\<close>, which
  is not part of the module; the specification has it as a fixed set of deployment
  environments, each selecting the file \<^verbatim>\<open>{environment}.yaml\<close>. A member is given by its
  \<^verbatim>\<open>.value\<close>.
\<close>

datatype Environment = Environment string

fun env_value :: "Environment \<Rightarrow> string" where
  "env_value (Environment v) = v"

text \<open>
  \<^verbatim>\<open>
  def get_settings(env):
      config_dir = Path("configs")
      default_config = load_yaml(config_dir / "default.yaml")
      env_config = load_yaml(config_dir / f"{env.value}.yaml")
      config = merge_configs(default_config, env_config)
      config = merge_configs(config, { ... })
      config["strategies"] = load_strategy_configs(config_dir / "strategies")
      config["rules"] = load_rules_configs(config_dir / "rules")
      try:
          return Settings(**config)
      except ValueError as e:
          raise ValueError(f"Configuration validation error: {e}")
  \<close>
  \<open>merged_config\<close> is the function up to the second merge.
\<close>

definition merged_config :: "externals \<Rightarrow> world \<Rightarrow> Environment \<Rightarrow> pyerr + pyval" where
  "merged_config X W env =
     and_then (load_yaml (files W) ''configs/default.yaml'') (\<lambda>default_config.
     and_then (load_yaml (files W) (''configs/'' @ env_value env @ ''.yaml'')) (\<lambda>env_config.
     and_then (merge_configs default_config env_config) (\<lambda>config.
     and_then (env_overrides X (environ W) config) (\<lambda>overrides.
       merge_configs config overrides))))"

definition get_settings ::
  "externals \<Rightarrow> ('s, 'r) core_types \<Rightarrow> world \<Rightarrow> Environment \<Rightarrow> pyerr + ('s, 'r) Settings" where
  "get_settings X T W env =
     and_then (merged_config X W env) (\<lambda>config.
     and_then (load_strategy_configs T W ''configs/strategies'') (\<lambda>strategies_arg.
       (case config of
          VDict kv \<Rightarrow>
            and_then (load_rules_configs T W ''configs/rules'') (\<lambda>rules_arg.
              (case Settings_new X kv strategies_arg rules_arg of
                 Inl es \<Rightarrow>
                   Inl (ValueError (''Configuration validation error: '' @ validation_text X es))
               | Inr s \<Rightarrow> Inr s))
        | _ \<Rightarrow> Inl TypeError)))"

text \<open>
  \<^verbatim>\<open>
  settings = None

  def init_settings(env):
      global settings
      if settings is None:
          settings = get_settings(env)
      return settings
  \<close>
  The global is the state: the function takes it and returns it with its result.
\<close>

definition init_settings ::
  "externals \<Rightarrow> ('s, 'r) core_types \<Rightarrow> world \<Rightarrow> ('s, 'r) Settings option \<Rightarrow> Environment \<Rightarrow>
   (pyerr + ('s, 'r) Settings) \<times> ('s, 'r) Settings option" where
  "init_settings X T W settings env =
     (case settings of
        None \<Rightarrow>
          (case get_settings X T W env of
             Inl e \<Rightarrow> (Inl e, None)
           | Inr s \<Rightarrow> (Inr s, Some s))
      | Some s \<Rightarrow> (Inr s, Some s))"

section \<open>Executing the module\<close>

text \<open>
  Importing \<^verbatim>\<open>core/config.py\<close> executes its top-level statements in order. An
  \<^verbatim>\<open>import\<close> binds names; a \<^verbatim>\<open>class\<close> statement evaluates its bases and runs its body,
  which evaluates the annotation of every field (as the interpreters before 3.14 do when a
  module does not start with \<^verbatim>\<open>from __future__ import annotations\<close>, and this one does
  not), and then binds the class; a \<^verbatim>\<open>def\<close>
  evaluates its decorators, defaults and annotations, not its body, and binds the function.
  A global name that is read before it is bound, and is no built-in, is a \<open>NameError\<close>.
  A statement is given by the global names it reads, in the order of evaluation, and the
  names it binds.
\<close>

datatype stmt =
    Import "string list"
  | Expr "string list"
  | ClassDef string "string list"
  | FunctionDef string "string list"
  | Assign string "string list"
  | IfMain "string list"

fun reads :: "stmt \<Rightarrow> string list" where
  "reads (Import names) = []"
| "reads (Expr rs) = rs"
| "reads (ClassDef c rs) = rs"
| "reads (FunctionDef f rs) = rs"
| "reads (Assign x rs) = rs"
| "reads (IfMain rs) = ''__name__'' # rs"

fun binds :: "stmt \<Rightarrow> string list" where
  "binds (Import names) = names"
| "binds (Expr rs) = []"
| "binds (ClassDef c rs) = [c]"
| "binds (FunctionDef f rs) = [f]"
| "binds (Assign x rs) = [x]"
| "binds (IfMain rs) = []"

definition exec_stmt :: "string list \<Rightarrow> stmt \<Rightarrow> pyerr + string list" where
  "exec_stmt ns s =
     (case find (\<lambda>n. n \<notin> set ns) (reads s) of
        Some n \<Rightarrow> Inl (NameError n)
      | None \<Rightarrow> Inr (binds s @ ns))"

fun exec_module :: "string list \<Rightarrow> stmt list \<Rightarrow> pyerr + string list" where
  "exec_module ns [] = Inr ns"
| "exec_module ns (s # ss) = and_then (exec_stmt ns s) (\<lambda>ns'. exec_module ns' ss)"

text \<open>The names that are bound before the first statement runs.\<close>

definition builtin_names :: "string list" where
  "builtin_names = [''__name__'', ''str'', ''int'', ''float'', ''print'']"

text \<open>
  The statements of \<^verbatim>\<open>core/config.py\<close>, from line 1 to line 185. The last one is the
  \<^verbatim>\<open>if __name__ == "__main__"\<close> block, whose body runs only when the file is the script:
  \<open>script\<close> tells whether it is.
\<close>

definition config_module :: "bool \<Rightarrow> stmt list" where
  "config_module script =
     [Import [''os''],
      Import [''List'', ''Dict'', ''Any'', ''Optional''],
      Import [''Path''],
      Import [''yaml''],
      Import [''load_dotenv''],
      Import [''BaseModel'', ''Field'', ''validator''],
      Import [''Environment''],
      Import [''StrategyConfig'', ''RiskPolicy''],
      Expr [''load_dotenv''],
      ClassDef ''DataProviderConfig''
        [''BaseModel'', ''Field'', ''str'', ''Optional'', ''str'', ''Optional'', ''str'', ''str'',
         ''validator''],
      ClassDef ''CacheConfig'' [''BaseModel'', ''str''],
      ClassDef ''RiskConfig''
        [''BaseModel'', ''Field'', ''float'', ''Field'', ''float'', ''Optional'', ''int''],
      ClassDef ''TradingConfig''
        [''BaseModel'', ''List'', ''str'', ''Field'', ''float'', ''RiskConfig'', ''validator''],
      ClassDef ''AppConfig'' [''BaseModel'', ''str'', ''str'', ''validator''],
      ClassDef ''Settings''
        [''BaseModel'', ''AppConfig'', ''DataConfig'', ''TradingConfig'', ''Dict'', ''str'',
         ''StrategyConfig'', ''Dict'', ''str'', ''RiskPolicy''],
      ClassDef ''DataConfig'' [''BaseModel'', ''List'', ''DataProviderConfig'', ''CacheConfig''],
      FunctionDef ''load_yaml'' [''Path'', ''Dict'', ''str'', ''Any''],
      FunctionDef ''merge_configs''
        [''Dict'', ''str'', ''Any'', ''Dict'', ''str'', ''Any'', ''Dict'', ''str'', ''Any''],
      FunctionDef ''load_strategy_configs'' [''Path'', ''Dict'', ''str'', ''StrategyConfig''],
      FunctionDef ''load_rules_configs'' [''Path'', ''Dict'', ''str'', ''RiskPolicy''],
      FunctionDef ''get_settings'' [''Environment'', ''Environment'', ''Settings''],
      Assign ''settings'' [''Optional'', ''Settings''],
      FunctionDef ''init_settings'' [''Environment'', ''Environment'', ''Settings''],
      IfMain (if script then [''init_settings'', ''Environment'', ''print''] else [])]"

text \<open>
  A caller reaches a function of the module through the module: the module is executed
  first, and the call happens when the function's name is bound afterwards.
\<close>

definition call_in_module :: "bool \<Rightarrow> string \<Rightarrow> 'a \<Rightarrow> pyerr + 'a" where
  "call_in_module script f outcome =
     (case exec_module builtin_names (config_module script) of
        Inl e \<Rightarrow> Inl e
      | Inr ns \<Rightarrow> if f \<in> set ns then Inr outcome else Inl (ImportError f))"

section \<open>Examples\<close>

text \<open>
  The values at which the properties are tried: an instance of the externals (it parses the
  numerals \<^verbatim>\<open>0.5\<close> and \<^verbatim>\<open>250\<close> and no other string, and accepts for a field only a
  value of the field's own type, an integer also where a float is asked for), classes of
  \<^verbatim>\<open>core.types\<close> that keep their keyword arguments, and some worlds.
\<close>

definition example_externals :: externals where
  "example_externals =
     \<lparr>float_of_str = (\<lambda>s. if s = ''0.5'' then Some (Fin (1 / 2)) else None),
      float_of_int = (\<lambda>i. Some (Fin (of_int i))),
      int_of_str = (\<lambda>s. if s = ''250'' then Some 250 else None),
      float_error_text = (\<lambda>s. ''could not convert string to float: '' @ repr_str s),
      int_error_text = (\<lambda>s. ''invalid literal for int() with base 10: '' @ take 200 (repr_str s)),
      repr_float = (\<lambda>x. ''?''),
      as_str = (\<lambda>v. case v of VStr s \<Rightarrow> Some s | _ \<Rightarrow> None),
      as_float = (\<lambda>v. case v of VFloat x \<Rightarrow> Some x | VInt i \<Rightarrow> Some (Fin (of_int i)) | _ \<Rightarrow> None),
      as_int = (\<lambda>v. case v of VInt i \<Rightarrow> Some i | _ \<Rightarrow> None),
      validation_text = (\<lambda>es. ''validation failed'')\<rparr>"

definition example_types ::
  "((string \<times> pyval) list, (string \<times> pyval) list) core_types" where
  "example_types = \<lparr>StrategyConfig = (\<lambda>kv. Inr kv), RiskPolicy = (\<lambda>kv. Inr kv)\<rparr>"

definition example_default :: pyval where
  "example_default =
     VDict
       [(''app'', VDict [(''name'', VStr ''traderai''), (''log_level'', VStr ''INFO'')]),
        (''data'', VDict
           [(''providers'', VList
               [VDict [(''name'', VStr ''alpaca''),
                       (''endpoint'', VStr ''https://paper-api.alpaca.markets'')]]),
            (''cache'', VDict [(''redis_url'', VStr ''redis://cache:6379/1'')])]),
        (''trading'', VDict
           [(''markets'', VList [VStr ''stocks'', VStr ''crypto'']),
            (''max_position_size'', VFloat float_0_1),
            (''risk'', VDict [(''max_drawdown'', VFloat float_0_2), (''var_limit'', VFloat float_0_05)])])]"

definition example_files :: "string \<Rightarrow> yaml_file" where
  "example_files p =
     (if p = ''configs/default.yaml'' then Document example_default
      else if p = ''configs/prod.yaml''
        then Document (VDict [(''app'', VDict [(''log_level'', VStr ''WARNING'')])])
      else if p = ''configs/empty.yaml'' then Document VNone
      else if p = ''configs/broken.yaml''
        then Malformed ''mapping values are not allowed here''
      else if p = ''configs/strategies/momentum.yaml''
        then Document (VDict [(''strategy'', VDict [(''window'', VInt 20)])])
      else if p = ''configs/rules/limits.yaml''
        then Document (VDict [(''risk'', VDict [(''max_orders'', VInt 5)])])
      else Absent)"

definition example_world :: world where
  "example_world =
     \<lparr>files = example_files,
      glob_yaml = (\<lambda>d. if d = ''configs/strategies'' then [''configs/strategies/momentum.yaml'']
                       else if d = ''configs/rules'' then [''configs/rules/limits.yaml'']
                       else []),
      environ = (\<lambda>n. if n = ''MARKETS'' then Some ''stocks,forex''
                     else if n = ''ALPACA_API_KEY'' then Some ''key-1''
                     else if n = ''MAX_DRAWDOWN'' then Some ''0.5''
                     else None)\<rparr>"

definition example_merged :: "(string \<times> pyval) list" where
  "example_merged =
       [(''app'', VDict [(''name'', VStr ''traderai''), (''log_level'', VStr ''WARNING'')]),
        (''data'', VDict
          [(''providers'', VList
             [VDict
               [(''name'', VStr ''alpaca''),
                (''endpoint'', VStr ''https://paper-api.alpaca.markets''),
                (''api_key'', VStr ''key-1''), (''secret_key'', VNone)]]),
           (''cache'', VDict [(''redis_url'', VStr ''redis://cache:6379/1'')])]),
        (''trading'', VDict
          [(''markets'', VList [VStr ''stocks'', VStr ''forex'']),
           (''max_position_size'', VFloat float_0_1),
           (''risk'', VDict
             [(''max_drawdown'', VFloat (Fin (1 / 2))),
              (''var_limit'', VFloat float_0_05),
              (''max_latency_ms'', VInt 1000)])])]"

definition example_settings ::
  "((string \<times> pyval) list, (string \<times> pyval) list) Settings" where
  "example_settings =
     \<lparr>app = \<lparr>AppConfig.name = ''traderai'', log_level = ''WARNING''\<rparr>,
      data =
        \<lparr>providers =
           [\<lparr>DataProviderConfig.name = ''alpaca'', api_key = Some ''key-1'', secret_key = None,
              endpoint = ''https://paper-api.alpaca.markets''\<rparr>],
         cache = \<lparr>redis_url = ''redis://cache:6379/1''\<rparr>\<rparr>,
      trading =
        \<lparr>markets = [''stocks'', ''forex''],
         max_position_size = float_0_1,
         risk = \<lparr>max_drawdown = Fin (1 / 2), var_limit = float_0_05,
                  max_latency_ms = Some 1000\<rparr>\<rparr>,
      strategies = [(''momentum'', [(''window'', VInt 20)])],
      rules = [(''limits'', [(''max_orders'', VInt 5)])]\<rparr>"

definition markets_world :: world where
  "markets_world =
     \<lparr>files = (\<lambda>p. if p = ''configs/default.yaml''
                     then Document (VDict [(''trading'',
                            VDict [(''markets'', VList [VStr ''stocks'', VStr ''crypto''])])])
                     else Absent),
      glob_yaml = (\<lambda>d. []),
      environ = (\<lambda>n. None)\<rparr>"

definition missing_section_world :: world where
  "missing_section_world =
     \<lparr>files = (\<lambda>p. if p = ''configs/strategies/momentum.yaml''
                     then Document (VDict [(''window'', VInt 20)])
                   else if p = ''configs/rules/limits.yaml''
                     then Document (VDict [(''max_orders'', VInt 5)])
                   else Absent),
      glob_yaml = (\<lambda>d. if d = ''configs/strategies'' then [''configs/strategies/momentum.yaml'']
                       else if d = ''configs/rules'' then [''configs/rules/limits.yaml'']
                       else []),
      environ = (\<lambda>n. None)\<rparr>"

definition bad_limit_world :: world where
  "bad_limit_world =
     example_world\<lparr>environ := (\<lambda>n. if n = ''VAR_LIMIT'' then Some ''high''
                                      else environ example_world n)\<rparr>"

section \<open>The vocabulary of the properties\<close>

text \<open>
  What the properties say and the module has no name for: a document has a top-level
  section; the text of an exception's message, and a path occurring in it; a float lies in
  the interval from 0, excluded, to 1, included; a tree whose three fractions are given
  floats; the numeric variables, what it is for the value of one to parse, and the
  interpreter's error when it does not.
\<close>

fun has_section :: "pyval \<Rightarrow> string \<Rightarrow> bool" where
  "has_section (VDict kv) sect = (sect \<in> fst ` set kv)"
| "has_section v sect = False"

fun err_text :: "pyerr \<Rightarrow> string" where
  "err_text (ValueError m) = m"
| "err_text (KeyError k) = repr_str k"
| "err_text (AttributeError a) = a"
| "err_text (NameError n) = n"
| "err_text (ImportError n) = n"
| "err_text e = []"

fun occurs_in :: "string \<Rightarrow> string \<Rightarrow> bool" where
  "occurs_in p [] = (p = [])"
| "occurs_in p (c # cs) = (take (length p) (c # cs) = p \<or> occurs_in p cs)"

fun in_unit_interval :: "pyfloat \<Rightarrow> bool" where
  "in_unit_interval (Fin q) = (0 < q \<and> q \<le> 1)"
| "in_unit_interval x = False"

definition with_fractions ::
  "(string \<times> pyval) list \<Rightarrow> (string \<times> pyval) list \<Rightarrow> (string \<times> pyval) list \<Rightarrow>
   pyfloat \<Rightarrow> pyfloat \<Rightarrow> pyfloat \<Rightarrow> (string \<times> pyval) list" where
  "with_fractions cfg tr rk p d v =
     AList.update ''trading''
       (VDict (AList.update ''max_position_size'' (VFloat p)
          (AList.update ''risk''
             (VDict (AList.update ''max_drawdown'' (VFloat d)
                (AList.update ''var_limit'' (VFloat v) rk)))
             tr)))
       cfg"

definition numeric_variables :: "string list" where
  "numeric_variables = [''MAX_POSITION_SIZE'', ''MAX_DRAWDOWN'', ''VAR_LIMIT'', ''MAX_LATENCY_MS'']"

definition parses :: "externals \<Rightarrow> string \<Rightarrow> string \<Rightarrow> bool" where
  "parses X nm s =
     (if nm = ''MAX_LATENCY_MS'' then int_of_str X s \<noteq> None else float_of_str X s \<noteq> None)"

definition conversion_error :: "externals \<Rightarrow> string \<Rightarrow> string \<Rightarrow> pyerr" where
  "conversion_error X nm s =
     (if nm = ''MAX_LATENCY_MS'' then ValueError (int_error_text X s)
      else ValueError (float_error_text X s))"

section \<open>Properties\<close>

subsection \<open>Sequencing\<close>

lemma and_then_Inr_iff: "and_then r f = Inr y \<longleftrightarrow> (\<exists>x. r = Inr x \<and> f x = Inr y)"
  by (cases r) simp_all

lemma and_then_case: "and_then r f = (case r of Inl e \<Rightarrow> Inl e | Inr x \<Rightarrow> f x)"
  by (cases r) simp_all

lemma and_then_fails: "(\<And>x. \<exists>e. f x = Inl e) \<Longrightarrow> \<exists>e. and_then r f = Inl e"
  by (cases r) simp_all

subsection \<open>What the merger writes\<close>

text \<open>
  A store \<open>h'\<close> extends \<open>h\<close> without writing into it when \<open>take (length h) h' = h\<close>:
  every object of \<open>h\<close> is still at its address, unchanged.
\<close>

lemma take_length_trans:
  assumes "take (length h) h1 = h" and "take (length h1) h2 = h1"
  shows "take (length h) h2 = h"
proof -
  have "length (take (length h) h1) = length h" using assms(1) by simp
  then have le: "length h \<le> length h1" by simp
  have "take (length h) h2 = take (length h) (take (length h1) h2)"
    using le by (simp add: min_absorb1)
  then show ?thesis using assms by simp
qed

lemma deref_take:
  assumes "take (length h) h1 = h" and "a < length h"
  shows "deref h1 a = deref h a"
proof -
  have "length (take (length h) h1) = length h" using assms(1) by simp
  then have le: "length h \<le> length h1" by simp
  have "h ! a = take (length h) h1 ! a" using assms(1) by simp
  also have "\<dots> = h1 ! a" using assms(2) by simp
  finally show ?thesis using assms(2) le by (simp add: deref_def)
qed

lemma st_setitem_length:
  "st_setitem h r key v = Inr h' \<Longrightarrow> length h' = length h"
  by (auto simp: st_setitem_def split: option.splits obj.splits)

lemma st_setitem_take:
  "st_setitem h r key v = Inr h' \<Longrightarrow> n \<le> r \<Longrightarrow> take n h' = take n h"
  by (auto simp: st_setitem_def split: option.splits obj.splits)


lemma merge_items_st_frame:
  assumes call: "\<And>h b ov h' out. call h b ov = (h', out) \<Longrightarrow> take (length h) h' = h"
  shows "merge_items_st call r items h = (h', out) \<Longrightarrow> length h0 \<le> r \<Longrightarrow>
         take (length h0) h = h0 \<Longrightarrow> take (length h0) h' = h0"
proof (induction items arbitrary: h)
  case Nil
  then show ?case by simp
next
  case (Cons item rest)
  obtain key "value" where item: "item = (key, value)" by (cases item)
  show ?case
  proof (cases "st_is_dict h value \<and> st_contains h r key")
    case True
    show ?thesis
    proof (cases "st_getitem h r key")
      case (Inl e)
      with Cons.prems True item show ?thesis by simp
    next
      case (Inr sub)
      obtain h1 res where c: "call h sub value = (h1, res)" by (cases "call h sub value")
      have f1: "take (length h0) h1 = h0"
        using take_length_trans [OF Cons.prems(3) call [OF c]] .
      show ?thesis
      proof (cases res)
        case (Inl e)
        with Cons.prems True item Inr c f1 show ?thesis by simp
      next
        case merged: (Inr merged)
        show ?thesis
        proof (cases "st_setitem h1 r key merged")
          case (Inl e)
          with Cons.prems True item Inr c merged f1 show ?thesis by simp
        next
          case h2: (Inr h2)
          have "take (length h0) h2 = h0"
            using st_setitem_take [OF h2 Cons.prems(2)] f1 by simp
          moreover have "merge_items_st call r rest h2 = (h', out)"
            using Cons.prems(1) True item Inr c merged h2 by simp
          ultimately show ?thesis using Cons.IH Cons.prems(2) by blast
        qed
      qed
    qed
  next
    case False
    show ?thesis
    proof (cases "st_setitem h r key value")
      case (Inl e)
      with Cons.prems False item show ?thesis by auto
    next
      case h2: (Inr h2)
      have "take (length h0) h2 = h0"
        using st_setitem_take [OF h2 Cons.prems(2)] Cons.prems(3) by simp
      moreover have "merge_items_st call r rest h2 = (h', out)"
        using Cons.prems(1) False item h2 by auto
      ultimately show ?thesis using Cons.IH Cons.prems(2) by blast
    qed
  qed
qed

lemma st_copy_result:
  "st_copy h base = Inr (h1, r) \<Longrightarrow>
   r = length h \<and> (\<exists>a ob. base = HRef a \<and> deref h a = Some ob \<and> h1 = h @ [ob])"
  by (cases base) (auto split: option.splits)

lemma merge_configs_st_frame:
  "merge_configs_st n h base override = (h', out) \<Longrightarrow> take (length h) h' = h"
proof (induction n arbitrary: h base override h' out)
  case 0
  then show ?case by simp
next
  case (Suc n)
  show ?case
  proof (cases "st_copy h base")
    case (Inl e)
    with Suc.prems show ?thesis by simp
  next
    case (Inr p)
    obtain h1 r where p: "p = (h1, r)" by (cases p)
    from st_copy_result Inr p obtain ob where r: "r = length h" and h1: "h1 = h @ [ob]"
      by blast
    show ?thesis
    proof (cases "st_items h1 override")
      case (Inl e)
      with Suc.prems Inr p h1 show ?thesis by auto
    next
      case items: (Inr items)
      obtain h2 res where l: "merge_items_st (merge_configs_st n) r items h1 = (h2, res)"
        by (cases "merge_items_st (merge_configs_st n) r items h1")
      have "take (length h) h2 = h"
        using merge_items_st_frame [of "merge_configs_st n", OF Suc.IH l] r h1 by simp
      moreover have "h' = h2"
        using Suc.prems Inr p items l by (cases res) auto
      ultimately show ?thesis by simp
    qed
  qed
qed



subsection \<open>What a merge that returns has built\<close>

text \<open>
  When the loop returns, the result is a mapping: a key that the override does not have
  keeps the value it had; a key of the override whose value is no mapping, or that the
  result did not have, has the override's value; a key of the override whose value is a
  mapping and that the result had has the merge of the two values, which returned.
\<close>

lemma merge_items_result:
  assumes "merge_items (VDict kv) items = Inr r" and "distinct (map fst items)"
  shows "\<exists>rkv. r = VDict rkv \<and>
     (\<forall>k. k \<notin> fst ` set items \<longrightarrow> map_of rkv k = map_of kv k) \<and>
     (\<forall>k v. (k, v) \<in> set items \<longrightarrow> \<not> (is_dict v \<and> k \<in> fst ` set kv) \<longrightarrow>
        map_of rkv k = Some v) \<and>
     (\<forall>k v. (k, v) \<in> set items \<longrightarrow> is_dict v \<and> k \<in> fst ` set kv \<longrightarrow>
        (\<exists>sub m. map_of kv k = Some sub \<and> merge_configs sub v = Inr m \<and>
           map_of rkv k = Some m))"
  using assms
proof (induction items arbitrary: kv)
  case Nil
  then show ?case by auto
next
  case (Cons item rest)
  obtain key val where item: "item = (key, val)" by (cases item)
  from Cons.prems(2) item have knew: "key \<notin> fst ` set rest" and drest: "distinct (map fst rest)"
    by auto
  have "\<exists>w. merge_items (VDict (AList.update key w kv)) rest = Inr r \<and>
          (if is_dict val \<and> key \<in> fst ` set kv
           then \<exists>sub. map_of kv key = Some sub \<and> merge_configs sub val = Inr w
           else w = val)"
  proof (cases "is_dict val \<and> key \<in> fst ` set kv")
    case True
    then obtain sub where sub: "map_of kv key = Some sub"
      by (metis domD dom_map_of_conv_image_fst)
    with Cons.prems(1) True item show ?thesis
      by (auto split: sum.splits)
  next
    case False
    with Cons.prems(1) item show ?thesis by auto
  qed
  then obtain w where step: "merge_items (VDict (AList.update key w kv)) rest = Inr r"
    and w: "if is_dict val \<and> key \<in> fst ` set kv
           then \<exists>sub. map_of kv key = Some sub \<and> merge_configs sub val = Inr w
           else w = val" by blast
  from Cons.IH [OF step drest] obtain rkv where r: "r = VDict rkv"
    and keep: "\<forall>k. k \<notin> fst ` set rest \<longrightarrow> map_of rkv k = map_of (AList.update key w kv) k"
    and repl: "\<forall>k v. (k, v) \<in> set rest \<longrightarrow>
        \<not> (is_dict v \<and> k \<in> fst ` set (AList.update key w kv)) \<longrightarrow> map_of rkv k = Some v"
    and rec: "\<forall>k v. (k, v) \<in> set rest \<longrightarrow>
        is_dict v \<and> k \<in> fst ` set (AList.update key w kv) \<longrightarrow>
        (\<exists>sub m. map_of (AList.update key w kv) k = Some sub \<and> merge_configs sub v = Inr m \<and>
           map_of rkv k = Some m)"
    by blast
  have here: "map_of rkv key = Some w" using keep knew by (simp add: update_conv')
  have other: "k \<noteq> key" if "(k, v) \<in> set rest" for k v
    using that knew by force
  have c1: "\<forall>k. k \<notin> fst ` set (item # rest) \<longrightarrow> map_of rkv k = map_of kv k"
    using keep item by (simp add: update_conv')
  have c2: "\<forall>k v. (k, v) \<in> set (item # rest) \<longrightarrow> \<not> (is_dict v \<and> k \<in> fst ` set kv) \<longrightarrow>
        map_of rkv k = Some v"
  proof (intro allI impI)
    fix k v assume mem: "(k, v) \<in> set (item # rest)" and no: "\<not> (is_dict v \<and> k \<in> fst ` set kv)"
    show "map_of rkv k = Some v"
    proof (cases "(k, v) = item")
      case True
      with item w no here show ?thesis by auto
    next
      case False
      with mem have inrest: "(k, v) \<in> set rest" by simp
      with other have "k \<noteq> key" by blast
      with no have "\<not> (is_dict v \<and> k \<in> fst ` set (AList.update key w kv))"
        by (simp add: dom_update)
      with repl inrest show ?thesis by blast
    qed
  qed
  have c3: "\<forall>k v. (k, v) \<in> set (item # rest) \<longrightarrow> is_dict v \<and> k \<in> fst ` set kv \<longrightarrow>
        (\<exists>sub m. map_of kv k = Some sub \<and> merge_configs sub v = Inr m \<and>
           map_of rkv k = Some m)"
  proof (intro allI impI)
    fix k v assume mem: "(k, v) \<in> set (item # rest)" and yes: "is_dict v \<and> k \<in> fst ` set kv"
    show "\<exists>sub m. map_of kv k = Some sub \<and> merge_configs sub v = Inr m \<and> map_of rkv k = Some m"
    proof (cases "(k, v) = item")
      case True
      with item w yes here show ?thesis by auto
    next
      case False
      with mem have inrest: "(k, v) \<in> set rest" by simp
      with other have ne: "k \<noteq> key" by blast
      with yes have "is_dict v \<and> k \<in> fst ` set (AList.update key w kv)"
        by (simp add: dom_update)
      with rec inrest obtain sub m where
        "map_of (AList.update key w kv) k = Some sub" "merge_configs sub v = Inr m"
        "map_of rkv k = Some m" by blast
      with ne show ?thesis by (simp add: update_conv')
    qed
  qed
  from r c1 c2 c3 show ?case by blast
qed

subsection \<open>The two mergers agree\<close>

text \<open>
  When the base and the override of the store stand for the trees \<open>B\<close> and \<open>ov\<close>, and
  there is a frame for every level of mappings in \<open>ov\<close> and one at least, the merger on the
  store ends as \<^const>\<open>merge_configs\<close> does on \<open>B\<close> and \<open>ov\<close>: with the same exception, or
  with a value that stands, in the new store, for the tree that \<^const>\<open>merge_configs\<close>
  returns.
\<close>

lemma reads_in_stable:
  assumes "reads_in A h v t" and "A \<subseteq> A'"
    and "\<And>a. a \<in> A \<Longrightarrow> a < length h \<Longrightarrow> a < length h' \<and> h' ! a = h ! a"
  shows "reads_in A' h' v t"
  using assms(1)
proof (induction rule: reads_in.induct)
  case (r_list a xs ts)
  from r_list(2) have "a < length h" by (simp add: deref_def split: if_splits)
  with assms(3) [OF r_list(1)] r_list(2) have "deref h' a = Some (ListObj xs)"
    by (simp add: deref_def)
  moreover have "list_all2 (reads_in A' h') xs ts"
    using r_list(3) by (rule list_all2_mono) simp
  ultimately show ?case using r_list(1) assms(2) by (auto intro: reads_in.r_list)
next
  case (r_dict a kv tkv)
  from r_dict(2) have "a < length h" by (simp add: deref_def split: if_splits)
  with assms(3) [OF r_dict(1)] r_dict(2) have "deref h' a = Some (DictObj kv)"
    by (simp add: deref_def)
  moreover have "list_all2 (\<lambda>p q. fst p = fst q \<and> reads_in A' h' (snd p) (snd q)) kv tkv"
    using r_dict(3) by (rule list_all2_mono) simp
  ultimately show ?case using r_dict(1) assms(2) by (auto intro: reads_in.r_dict)
qed (auto intro: reads_in.intros)

lemma reads_in_allocated:
  assumes "reads_in A h v t"
  shows "reads_in (A \<inter> {..<length h}) h v t"
  using assms
proof (induction rule: reads_in.induct)
  case (r_list a xs ts)
  from r_list(2) have "a < length h" by (simp add: deref_def split: if_splits)
  moreover have "list_all2 (reads_in (A \<inter> {..<length h}) h) xs ts"
    using r_list(3) by (rule list_all2_mono) simp
  ultimately show ?case using r_list(1,2) by (auto intro: reads_in.r_list)
next
  case (r_dict a kv tkv)
  from r_dict(2) have "a < length h" by (simp add: deref_def split: if_splits)
  moreover have "list_all2 (\<lambda>p q. fst p = fst q \<and> reads_in (A \<inter> {..<length h}) h (snd p) (snd q))
      kv tkv"
    using r_dict(3) by (rule list_all2_mono) simp
  ultimately show ?case using r_dict(1,2) by (auto intro: reads_in.r_dict)
qed (auto intro: reads_in.intros)

lemma obj_reads_stable:
  assumes "obj_reads A h ob t" and "A \<subseteq> A'"
    and "\<And>a. a \<in> A \<Longrightarrow> a < length h \<Longrightarrow> a < length h' \<and> h' ! a = h ! a"
  shows "obj_reads A' h' ob t"
proof (cases ob)
  case (DictObj kv)
  with assms(1) obtain tkv where t: "t = VDict tkv"
    and l: "list_all2 (\<lambda>p q. fst p = fst q \<and> reads_in A h (snd p) (snd q)) kv tkv"
    by (auto simp: obj_reads_def)
  have "list_all2 (\<lambda>p q. fst p = fst q \<and> reads_in A' h' (snd p) (snd q)) kv tkv"
    using l by (rule list_all2_mono) (auto intro: reads_in_stable [OF _ assms(2,3)])
  with DictObj t show ?thesis by (simp add: obj_reads_def)
next
  case (ListObj xs)
  with assms(1) obtain ts where t: "t = VList ts" and l: "list_all2 (reads_in A h) xs ts"
    by (auto simp: obj_reads_def)
  have "list_all2 (reads_in A' h') xs ts"
    using l by (rule list_all2_mono) (auto intro: reads_in_stable [OF _ assms(2,3)])
  with ListObj t show ?thesis by (simp add: obj_reads_def)
qed

lemma reads_in_ref:
  "reads_in A h (HRef a) t \<longleftrightarrow> a \<in> A \<and> (\<exists>ob. deref h a = Some ob \<and> obj_reads A h ob t)"
proof
  assume "reads_in A h (HRef a) t"
  then show "a \<in> A \<and> (\<exists>ob. deref h a = Some ob \<and> obj_reads A h ob t)"
    by (cases rule: reads_in.cases) (auto simp: obj_reads_def)
next
  assume "a \<in> A \<and> (\<exists>ob. deref h a = Some ob \<and> obj_reads A h ob t)"
  then obtain ob where "a \<in> A" "deref h a = Some ob" "obj_reads A h ob t" by blast
  then show "reads_in A h (HRef a) t"
    by (cases ob) (auto simp: obj_reads_def intro: reads_in.intros)
qed

lemma reads_in_is_dict: "reads_in A h v t \<Longrightarrow> st_is_dict h v = is_dict t"
  by (cases rule: reads_in.cases) auto

lemma reads_in_str: "reads_in A h v (VStr k) \<longleftrightarrow> v = HStr k"
  by (auto elim: reads_in.cases intro: reads_in.intros)

lemma reads_in_HStr: "reads_in A h (HStr k) t \<longleftrightarrow> t = VStr k"
  by (auto elim: reads_in.cases intro: reads_in.intros)

lemma list_all2_reads_str:
  "list_all2 (reads_in A h) xs ts \<Longrightarrow> HStr k \<in> set xs \<longleftrightarrow> VStr k \<in> set ts"
  by (induction rule: list_all2_induct) (auto simp: reads_in_str reads_in_HStr)

lemma kv_rel_keys:
  "list_all2 (\<lambda>p q. fst p = fst q \<and> P (snd p) (snd q)) kv tkv \<Longrightarrow> map fst kv = map fst tkv"
  by (induction rule: list_all2_induct) auto

lemma kv_rel_map_of:
  "list_all2 (\<lambda>p q. fst p = fst q \<and> P (snd p) (snd q)) kv tkv \<Longrightarrow>
   (case map_of kv k of
      None \<Rightarrow> map_of tkv k = None
    | Some v \<Rightarrow> (\<exists>t. map_of tkv k = Some t \<and> P v t))"
  by (induction rule: list_all2_induct) (auto split: option.splits)

lemma kv_rel_update:
  "list_all2 (\<lambda>p q. fst p = fst q \<and> P (snd p) (snd q)) kv tkv \<Longrightarrow> P v t \<Longrightarrow>
   list_all2 (\<lambda>p q. fst p = fst q \<and> P (snd p) (snd q)) (AList.update k v kv) (AList.update k t tkv)"
  by (induction rule: list_all2_induct) auto


lemma take_length_le:
  assumes "take (length h) h1 = h"
  shows "length h \<le> length h1"
proof -
  have "length (take (length h) h1) = length h" using assms by simp
  then show ?thesis by simp
qed

lemma st_contains_refines:
  assumes "deref hc r = Some ob" and "obj_reads F hc ob res"
  shows "st_contains hc r key = py_contains res key"
proof (cases ob)
  case (DictObj kv)
  with assms(2) obtain tkv where "res = VDict tkv"
    and "list_all2 (\<lambda>p q. fst p = fst q \<and> reads_in F hc (snd p) (snd q)) kv tkv"
    by (auto simp: obj_reads_def)
  with kv_rel_keys [OF this(2)] DictObj assms(1) show ?thesis
    by (simp add: st_contains_def)
next
  case (ListObj xs)
  with assms(2) obtain ts where "res = VList ts" and "list_all2 (reads_in F hc) xs ts"
    by (auto simp: obj_reads_def)
  with list_all2_reads_str [OF this(2)] ListObj assms(1) show ?thesis
    by (simp add: st_contains_def)
qed

lemma merge_items_st_refines:
  assumes call: "\<And>A h base B override ov. reads_in A h base B \<Longrightarrow> reads_in A h override ov \<Longrightarrow>
      dict_depth ov \<le> n \<Longrightarrow> 0 < n \<Longrightarrow>
      \<exists>h' out. merge_configs_st n h base override = (h', out) \<and>
        refines_out (A \<union> {a. length h \<le> a}) h' out (merge_configs B ov)"
    and notin: "r \<notin> F" and above: "{a. r < a} \<subseteq> F"
  shows "deref hc r = Some ob \<Longrightarrow> obj_reads F hc ob res \<Longrightarrow>
     list_all2 (\<lambda>p q. fst p = fst q \<and> reads_in F hc (snd p) (snd q)) items titems \<Longrightarrow>
     (\<forall>q \<in> set titems. dict_depth (snd q) \<le> n) \<Longrightarrow>
     \<exists>h' out. merge_items_st (merge_configs_st n) r items hc = (h', out) \<and>
        (case out of
           Inl e \<Rightarrow> merge_items res titems = Inl e
         | Inr u \<Rightarrow> (\<exists>ob' res'. merge_items res titems = Inr res' \<and>
                      deref h' r = Some ob' \<and> obj_reads F h' ob' res'))"
proof (induction items arbitrary: hc ob res titems)
  case Nil
  then show ?case by auto
next
  case (Cons item rest)
  obtain key val where item: "item = (key, val)" by (cases item)
  from Cons.prems(3) item obtain tval trest where titems: "titems = (key, tval) # trest"
    and val: "reads_in F hc val tval"
    and rest: "list_all2 (\<lambda>p q. fst p = fst q \<and> reads_in F hc (snd p) (snd q)) rest trest"
    by (auto simp: list_all2_Cons1)
  from Cons.prems(4) titems have fuel: "dict_depth tval \<le> n"
    and fuel_rest: "\<forall>q \<in> set trest. dict_depth (snd q) \<le> n"
    by auto
  have r: "r < length hc" using Cons.prems(1) by (simp add: deref_def split: if_splits)
  have cond: "(st_is_dict hc val \<and> st_contains hc r key) = (is_dict tval \<and> py_contains res key)"
    using reads_in_is_dict [OF val] st_contains_refines [OF Cons.prems(1,2)] by simp
  \<comment> \<open>the rest of the loop, from a store that agrees with \<open>hc\<close> on the footprint\<close>
  have continue: "\<exists>h' out. merge_items_st (merge_configs_st n) r rest h2 = (h', out) \<and>
        (case out of
           Inl e \<Rightarrow> merge_items (VDict tkv') trest = Inl e
         | Inr u \<Rightarrow> (\<exists>ob' res'. merge_items (VDict tkv') trest = Inr res' \<and>
                      deref h' r = Some ob' \<and> obj_reads F h' ob' res'))"
    if d2: "deref h2 r = Some (DictObj kv')"
      and kv': "list_all2 (\<lambda>p q. fst p = fst q \<and> reads_in F h2 (snd p) (snd q)) kv' tkv'"
      and same: "\<And>a. a \<in> F \<Longrightarrow> a < length hc \<Longrightarrow> a < length h2 \<and> h2 ! a = hc ! a"
    for h2 kv' tkv'
  proof -
    have "list_all2 (\<lambda>p q. fst p = fst q \<and> reads_in F h2 (snd p) (snd q)) rest trest"
      using rest by (rule list_all2_mono) (auto intro: reads_in_stable [OF _ subset_refl same])
    moreover have "obj_reads F h2 (DictObj kv') (VDict tkv')"
      using kv' by (simp add: obj_reads_def)
    ultimately show ?thesis
      using Cons.IH [OF d2 _ _ fuel_rest] by blast
  qed
  show ?case
  proof (cases ob)
    case (ListObj xs)
    with Cons.prems(2) obtain ts where res: "res = VList ts" by (auto simp: obj_reads_def)
    have "st_getitem hc r key = Inl TypeError" "st_setitem hc r key val = Inl TypeError"
      using Cons.prems(1) ListObj by (simp_all add: st_getitem_def st_setitem_def)
    then have st: "merge_items_st (merge_configs_st n) r (item # rest) hc = (hc, Inl TypeError)"
      using item by auto
    have pu: "merge_items res titems = Inl TypeError"
      using res titems by auto
    show ?thesis by (simp add: st pu)
  next
    case (DictObj kv)
    with Cons.prems(2) obtain tkv where res: "res = VDict tkv"
      and kv: "list_all2 (\<lambda>p q. fst p = fst q \<and> reads_in F hc (snd p) (snd q)) kv tkv"
      by (auto simp: obj_reads_def)
    show ?thesis
    proof (cases "st_is_dict hc val \<and> st_contains hc r key")
      case False
      let ?h2 = "hc[r := DictObj (AList.update key val kv)]"
      have set: "st_setitem hc r key val = Inr ?h2"
        using Cons.prems(1) DictObj by (simp add: st_setitem_def)
      have same: "a < length ?h2 \<and> ?h2 ! a = hc ! a" if "a \<in> F" "a < length hc" for a
      proof -
        from that notin have "r \<noteq> a" by auto
        with that show ?thesis by simp
      qed
      have d2: "deref ?h2 r = Some (DictObj (AList.update key val kv))"
        using r by (simp add: deref_def)
      have "list_all2 (\<lambda>p q. fst p = fst q \<and> reads_in F hc (snd p) (snd q))
          (AList.update key val kv) (AList.update key tval tkv)"
        using kv_rel_update [OF kv, of val tval key] val by simp
      then have kv2: "list_all2 (\<lambda>p q. fst p = fst q \<and> reads_in F ?h2 (snd p) (snd q))
          (AList.update key val kv) (AList.update key tval tkv)"
        by (rule list_all2_mono) (auto intro: reads_in_stable [OF _ subset_refl same])
      have st: "merge_items_st (merge_configs_st n) r (item # rest) hc =
          merge_items_st (merge_configs_st n) r rest ?h2"
        using False item set by auto
      have pu: "merge_items res titems = merge_items (VDict (AList.update key tval tkv)) trest"
        using False cond res titems by auto
      from continue [OF d2 kv2 same] show ?thesis
        by (simp only: st pu)
    next
      case True
      with cond have tcond: "is_dict tval \<and> py_contains res key" by simp
      from True Cons.prems(1) DictObj have "key \<in> fst ` set kv"
        by (simp add: st_contains_def)
      then obtain sub where sub: "map_of kv key = Some sub"
        by (metis domD dom_map_of_conv_image_fst)
      with kv_rel_map_of [OF kv, of key] obtain tsub where tsub: "map_of tkv key = Some tsub"
        and subr: "reads_in F hc sub tsub" by auto
      have get: "st_getitem hc r key = Inr sub"
        using Cons.prems(1) DictObj sub by (simp add: st_getitem_def)
      have "0 < n" using tcond fuel by (cases tval) auto
      from call [OF subr val fuel this] obtain h1 out1 where
        run: "merge_configs_st n hc sub val = (h1, out1)"
        and ref: "refines_out (F \<union> {a. length hc \<le> a}) h1 out1 (merge_configs tsub tval)"
        by blast
      have F: "F \<union> {a. length hc \<le> a} = F" using above r by auto
      have frame: "take (length hc) h1 = hc" using merge_configs_st_frame [OF run] .
      show ?thesis
      proof (cases out1)
        case (Inl e)
        with ref have pure: "merge_configs tsub tval = Inl e" by (simp add: refines_out_def)
        have st: "merge_items_st (merge_configs_st n) r (item # rest) hc = (h1, Inl e)"
          using True item get run Inl by auto
        have pu: "merge_items res titems = Inl e"
          using tcond res titems tsub pure by auto
        show ?thesis by (simp add: st pu)
      next
        case (Inr m)
        with ref F obtain tm where pure: "merge_configs tsub tval = Inr tm"
          and m: "reads_in F h1 m tm" by (auto simp: refines_out_def)
        have len: "length hc \<le> length h1"
          using frame by (rule take_length_le)
        have d1: "deref h1 r = Some (DictObj kv)"
          using deref_take [OF frame r] Cons.prems(1) DictObj by simp
        let ?h2 = "h1[r := DictObj (AList.update key m kv)]"
        have set: "st_setitem h1 r key m = Inr ?h2"
          using d1 by (simp add: st_setitem_def)
        have same1: "\<And>a. a \<in> F \<Longrightarrow> a < length hc \<Longrightarrow> a < length h1 \<and> h1 ! a = hc ! a"
          using frame len by (metis nth_take order_less_le_trans)
        have same12: "a < length ?h2 \<and> ?h2 ! a = h1 ! a" if "a \<in> F" "a < length h1" for a
        proof -
          from that notin have "r \<noteq> a" by auto
          with that show ?thesis by simp
        qed
        have same: "\<And>a. a \<in> F \<Longrightarrow> a < length hc \<Longrightarrow> a < length ?h2 \<and> ?h2 ! a = hc ! a"
          using same1 same12 by metis
        have d2: "deref ?h2 r = Some (DictObj (AList.update key m kv))"
          using r len by (simp add: deref_def)
        have kv1: "list_all2 (\<lambda>p q. fst p = fst q \<and> reads_in F h1 (snd p) (snd q)) kv tkv"
          using kv by (rule list_all2_mono) (auto intro: reads_in_stable [OF _ subset_refl same1])
        have "list_all2 (\<lambda>p q. fst p = fst q \<and> reads_in F h1 (snd p) (snd q))
            (AList.update key m kv) (AList.update key tm tkv)"
          using kv_rel_update [OF kv1, of m tm key] m by simp
        then have kv2: "list_all2 (\<lambda>p q. fst p = fst q \<and> reads_in F ?h2 (snd p) (snd q))
            (AList.update key m kv) (AList.update key tm tkv)"
          by (rule list_all2_mono) (auto intro: reads_in_stable [OF _ subset_refl same12])
        have st: "merge_items_st (merge_configs_st n) r (item # rest) hc =
            merge_items_st (merge_configs_st n) r rest ?h2"
          using True item get run Inr set by auto
        have pu: "merge_items res titems = merge_items (VDict (AList.update key tm tkv)) trest"
          using tcond res titems tsub pure by auto
        from continue [OF d2 kv2 same] show ?thesis
          by (simp only: st pu)
      qed
    qed
  qed
qed


lemma reads_in_scalar_base:
  assumes "reads_in A h base B" and "\<nexists>a. base = HRef a"
  shows "st_copy h base = Inl (AttributeError ''copy'') \<and>
         merge_configs B ov = Inl (AttributeError ''copy'')"
  using assms by (cases rule: reads_in.cases) (cases ov; simp)+

lemma obj_reads_copy: "obj_reads A h ob B \<Longrightarrow> py_copy B = Inr B"
  by (cases ob) (auto simp: obj_reads_def)

lemma reads_in_not_dict_override:
  assumes "reads_in A h override ov" and "\<not> is_dict ov" and "py_copy B = Inr B"
  shows "st_items (h @ [ob]) override = Inl (AttributeError ''items'') \<and>
         merge_configs B ov = Inl (AttributeError ''items'')"
  using assms
  by (cases rule: reads_in.cases) (auto simp: deref_def nth_append split: if_splits)

lemma dict_depth_value: "q \<in> set tkv \<Longrightarrow> dict_depth (snd q) < dict_depth (VDict tkv)"
  by (induction tkv) (auto simp: less_Suc_eq_le max.coboundedI2)

lemma merge_configs_st_refines:
  "reads_in A h base B \<Longrightarrow> reads_in A h override ov \<Longrightarrow> dict_depth ov \<le> n \<Longrightarrow> 0 < n \<Longrightarrow>
   \<exists>h' out. merge_configs_st n h base override = (h', out) \<and>
     refines_out (A \<union> {a. length h \<le> a}) h' out (merge_configs B ov)"
proof (induction n arbitrary: A h base B override ov)
  case 0
  then show ?case by simp
next
  case (Suc n)
  show ?case
  proof (cases "\<exists>a. base = HRef a")
    case False
    with reads_in_scalar_base [OF Suc.prems(1), of ov] show ?thesis
      by (simp add: refines_out_def)
  next
    case True
    then obtain a where base: "base = HRef a" by blast
    with Suc.prems(1) obtain ob where a: "a \<in> A" and ob: "deref h a = Some ob"
      and obr: "obj_reads A h ob B" by (auto simp: reads_in_ref)
    let ?h1 = "h @ [ob]"
    let ?r = "length h"
    let ?F = "(A \<inter> {..<length h}) \<union> {a. length h < a}"
    have copy: "st_copy h base = Inr (?h1, ?r)" using base ob by simp
    have pcopy: "py_copy B = Inr B" using obr by (rule obj_reads_copy)
    have same: "a < length ?h1 \<and> ?h1 ! a = h ! a" if "a < length h" for a
      using that by (simp add: nth_append)
    show ?thesis
    proof (cases "is_dict ov")
      case False
      with reads_in_not_dict_override [OF Suc.prems(2) False pcopy, of ob] copy
      show ?thesis by (simp add: refines_out_def)
    next
      case True
      then obtain tokv where ov: "ov = VDict tokv" by (cases ov) auto
      with Suc.prems(2) obtain o' okv where override: "override = HRef o'"
        and o': "deref h o' = Some (DictObj okv)"
        and okv: "list_all2 (\<lambda>p q. fst p = fst q \<and> reads_in A h (snd p) (snd q)) okv tokv"
        by (auto elim: reads_in.cases)
      have "o' < length h" using o' by (simp add: deref_def split: if_splits)
      then have items: "st_items ?h1 override = Inr okv"
        using override o' by (simp add: deref_def nth_append)
      have d: "deref ?h1 ?r = Some ob" by (simp add: deref_def)
      have sub: "A \<inter> {..<length h} \<subseteq> ?F" by auto
      have obr1: "obj_reads ?F ?h1 ob B"
      proof (rule obj_reads_stable [where A = "A \<inter> {..<length h}" and h = h])
        show "obj_reads (A \<inter> {..<length h}) h ob B"
        proof (cases ob)
          case (DictObj kv)
          with obr obtain tkv where "B = VDict tkv"
            "list_all2 (\<lambda>p q. fst p = fst q \<and> reads_in A h (snd p) (snd q)) kv tkv"
            by (auto simp: obj_reads_def)
          moreover from this(2)
          have "list_all2 (\<lambda>p q. fst p = fst q \<and> reads_in (A \<inter> {..<length h}) h (snd p) (snd q))
              kv tkv"
            by (rule list_all2_mono) (auto intro: reads_in_allocated)
          ultimately show ?thesis using DictObj by (simp add: obj_reads_def)
        next
          case (ListObj xs)
          with obr obtain ts where "B = VList ts" "list_all2 (reads_in A h) xs ts"
            by (auto simp: obj_reads_def)
          moreover from this(2) have "list_all2 (reads_in (A \<inter> {..<length h}) h) xs ts"
            by (rule list_all2_mono) (auto intro: reads_in_allocated)
          ultimately show ?thesis using ListObj by (simp add: obj_reads_def)
        qed
      qed (use sub same in auto)
      have okv1: "list_all2 (\<lambda>p q. fst p = fst q \<and> reads_in ?F ?h1 (snd p) (snd q)) okv tokv"
        using okv
        by (rule list_all2_mono)
          (auto intro: reads_in_stable [OF reads_in_allocated sub] simp: nth_append)
      have fuel: "\<forall>q \<in> set tokv. dict_depth (snd q) \<le> n"
        using Suc.prems(3) ov dict_depth_value by fastforce
      have notin: "?r \<notin> ?F" by simp
      have above: "{a. ?r < a} \<subseteq> ?F" by auto
      from merge_items_st_refines [where F = ?F and r = ?r, OF Suc.IH notin above d obr1 okv1 fuel]
      obtain h' out where
        loop: "merge_items_st (merge_configs_st n) ?r okv ?h1 = (h', out)"
        and out: "case out of
           Inl e \<Rightarrow> merge_items B tokv = Inl e
         | Inr u \<Rightarrow> (\<exists>ob' res'. merge_items B tokv = Inr res' \<and>
                      deref h' ?r = Some ob' \<and> obj_reads ?F h' ob' res')"
        by blast
      have pure: "merge_configs B ov = merge_items B tokv"
        using ov pcopy by simp
      show ?thesis
      proof (cases out)
        case (Inl e)
        with out loop copy items pure show ?thesis
          by (simp add: refines_out_def)
      next
        case (Inr u)
        with out obtain ob' res' where res': "merge_items B tokv = Inr res'"
          and d': "deref h' ?r = Some ob'" and obr': "obj_reads ?F h' ob' res'" by auto
        have "obj_reads (A \<union> {a. length h \<le> a}) h' ob' res'"
          by (rule obj_reads_stable [OF obr']) auto
        with d' have "reads_in (A \<union> {a. length h \<le> a}) h' (HRef ?r) res'"
          by (auto simp: reads_in_ref)
        with Inr loop copy items pure res' show ?thesis
          by (simp add: refines_out_def)
      qed
    qed
  qed
qed


lemma example_store_reads:
  "reads_in UNIV example_store (HRef 0)
     (VDict [(''app'', VDict [(''name'', VStr ''traderai''), (''log_level'', VStr ''INFO'')]),
             (''debug'', VBool True)])"
  "reads_in UNIV example_store (HRef 1)
     (VDict [(''app'', VDict [(''log_level'', VStr ''DEBUG'')]), (''extra'', VInt 7)])"
  by (auto intro!: reads_in.intros simp: example_store_def deref_def)

lemma example_store_merge_agrees:
  "\<exists>h' res. merge_configs_st 2 example_store (HRef 0) (HRef 1) = (h', Inr res) \<and>
     reads_in UNIV h' res
       (VDict [(''app'', VDict [(''name'', VStr ''traderai''), (''log_level'', VStr ''DEBUG'')]),
               (''debug'', VBool True), (''extra'', VInt 7)])"
proof -
  have "dict_depth (VDict [(''app'', VDict [(''log_level'', VStr ''DEBUG'')]), (''extra'', VInt 7)])
      \<le> 2" by simp
  from merge_configs_st_refines [OF example_store_reads this]
  obtain h' out where run: "merge_configs_st 2 example_store (HRef 0) (HRef 1) = (h', out)"
    and ref: "refines_out UNIV h' out
      (merge_configs
        (VDict [(''app'', VDict [(''name'', VStr ''traderai''), (''log_level'', VStr ''INFO'')]),
                (''debug'', VBool True)])
        (VDict [(''app'', VDict [(''log_level'', VStr ''DEBUG'')]), (''extra'', VInt 7)]))"
    by auto
  from ref run show ?thesis
    by (cases out) (auto simp: refines_out_def)
qed


subsection \<open>The inputs on which the merger returns\<close>

text \<open>
  On a \<^const>\<open>mergeable\<close> pair the merger returns, and among the overrides with
  \<^const>\<open>distinct_keys\<close> on no other pair: what is left out is a base that is no
  container, an override that is no mapping, and a key under which the override has a
  mapping and the base a value that cannot be merged with it.
\<close>

lemma mergeable_returns_aux:
  "mergeable base override \<longrightarrow> (\<exists>R. merge_configs base override = Inr R)"
  "(\<forall>rkv. result = VDict rkv \<longrightarrow> distinct (map fst items) \<longrightarrow>
      (\<forall>p \<in> set items. is_dict (snd p) \<and> fst p \<in> fst ` set rkv \<longrightarrow>
         (case map_of rkv (fst p) of Some sub \<Rightarrow> mergeable sub (snd p) | None \<Rightarrow> False)) \<longrightarrow>
      (\<exists>R. merge_items result items = Inr R))"
proof (induction base override and result items rule: merge_configs_merge_items.induct)
  case (1 base ov)
  show ?case
  proof
    assume m: "mergeable base (VDict ov)"
    show "\<exists>R. merge_configs base (VDict ov) = Inr R"
    proof (cases base)
      case (VDict bkv)
      with m 1 show ?thesis by auto
    next
      case (VList xs)
      with m show ?thesis by auto
    qed (use m in auto)
  qed
next
  case (3 result)
  show ?case by simp
next
  case (4 result key val rest)
  show ?case
  proof (intro allI impI)
    fix rkv
    assume res: "result = VDict rkv" and d: "distinct (map fst ((key, val) # rest))"
      and ok: "\<forall>p \<in> set ((key, val) # rest). is_dict (snd p) \<and> fst p \<in> fst ` set rkv \<longrightarrow>
         (case map_of rkv (fst p) of Some sub \<Rightarrow> mergeable sub (snd p) | None \<Rightarrow> False)"
    have knew: "key \<notin> fst ` set rest" and drest: "distinct (map fst rest)" using d by auto
    have rest_ok: "\<forall>p \<in> set rest. is_dict (snd p) \<and> fst p \<in> fst ` set (AList.update key w rkv) \<longrightarrow>
         (case map_of (AList.update key w rkv) (fst p) of Some sub \<Rightarrow> mergeable sub (snd p) | None \<Rightarrow> False)"
      for w
    proof
      fix p assume p: "p \<in> set rest"
      then have ne: "fst p \<noteq> key" using knew by force
      from p ok have "is_dict (snd p) \<and> fst p \<in> fst ` set rkv \<longrightarrow>
         (case map_of rkv (fst p) of Some sub \<Rightarrow> mergeable sub (snd p) | None \<Rightarrow> False)" by simp
      with ne show "is_dict (snd p) \<and> fst p \<in> fst ` set (AList.update key w rkv) \<longrightarrow>
         (case map_of (AList.update key w rkv) (fst p) of Some sub \<Rightarrow> mergeable sub (snd p) | None \<Rightarrow> False)"
        by (simp add: dom_update update_conv')
    qed
    show "\<exists>R. merge_items result ((key, val) # rest) = Inr R"
    proof (cases "is_dict val \<and> py_contains result key")
      case True
      with res ok obtain sub where sub: "map_of rkv key = Some sub" and msub: "mergeable sub val"
        by (auto split: option.splits)
      from sub res have g: "py_getitem result key = Inr sub" by simp
      from 4(1) [OF True g] msub obtain m where m: "merge_configs sub val = Inr m" by blast
      have s: "py_setitem result key m = Inr (VDict (AList.update key m rkv))" using res by simp
      from 4(2) [OF True g m s] drest rest_ok [of m]
      obtain R where "merge_items (VDict (AList.update key m rkv)) rest = Inr R" by blast
      with True g m s show ?thesis by simp
    next
      case False
      have s: "py_setitem result key val = Inr (VDict (AList.update key val rkv))" using res by simp
      from 4(3) [OF False s] drest rest_ok [of val]
      obtain R where "merge_items (VDict (AList.update key val rkv)) rest = Inr R" by blast
      with False s show ?thesis by auto
    qed
  qed
qed auto

lemma mergeable_returns: "mergeable base override \<Longrightarrow> \<exists>R. merge_configs base override = Inr R"
  using mergeable_returns_aux(1) by blast

lemma merge_items_list: "merge_items (VList xs) items = Inr R \<Longrightarrow> items = []"
  by (cases items) (auto split: if_splits)

lemma returns_mergeable:
  "merge_configs base override = Inr R \<Longrightarrow> distinct_keys override \<Longrightarrow> mergeable base override"
proof (induction "dict_depth override" arbitrary: base override R rule: less_induct)
  case less
  from less.prems(1) obtain okv where ov: "override = VDict okv"
    by (cases override) (auto split: sum.splits)
  from less.prems(2) ov have d: "distinct (map fst okv)"
    and deep: "\<forall>p \<in> set okv. distinct_keys (snd p)" by auto
  show ?case
  proof (cases base)
    case (VList xs)
    with less.prems(1) ov merge_items_list show ?thesis by auto
  next
    case (VDict bkv)
    with less.prems(1) ov have run: "merge_items (VDict bkv) okv = Inr R" by simp
    have "case map_of bkv (fst p) of Some sub \<Rightarrow> mergeable sub (snd p) | None \<Rightarrow> False"
      if p: "p \<in> set okv" and c: "is_dict (snd p) \<and> py_contains (VDict bkv) (fst p)" for p
    proof -
      from p have mem: "(fst p, snd p) \<in> set okv" by simp
      from c have c': "is_dict (snd p) \<and> fst p \<in> fst ` set bkv" by simp
      from merge_items_result [OF run d] have "\<forall>k v. (k, v) \<in> set okv \<longrightarrow>
          is_dict v \<and> k \<in> fst ` set bkv \<longrightarrow>
          (\<exists>sub m. map_of bkv k = Some sub \<and> merge_configs sub v = Inr m)" by blast
      with mem c' obtain sub m where sub: "map_of bkv (fst p) = Some sub"
        and m: "merge_configs sub (snd p) = Inr m" by blast
      have "dict_depth (snd p) < dict_depth override"
        using dict_depth_value [OF p] ov by simp
      from less.hyps [OF this m] deep p have "mergeable sub (snd p)" by blast
      with sub show ?thesis by simp
    qed
    with d VDict ov show ?thesis by simp
  qed (use less.prems(1) ov in auto)
qed

lemma mergeable_iff_returns:
  "distinct_keys override \<Longrightarrow> mergeable base override \<longleftrightarrow> (\<exists>R. merge_configs base override = Inr R)"
  using mergeable_returns returns_mergeable by blast

subsection \<open>The examples, evaluated\<close>

lemma example_merged_config:
  "merged_config example_externals example_world (Environment ''prod'') = Inr (VDict example_merged)"
  by (simp add: merged_config_def example_world_def example_files_def example_default_def
      load_yaml_def env_overrides_def get2_def get3_def getenv_def example_externals_def
      upper_def upper_char_def example_merged_def)

lemma example_loaders:
  "load_strategy_configs example_types example_world ''configs/strategies''
     = Inr [(''momentum'', [(''window'', VInt 20)])]"
  "load_rules_configs example_types example_world ''configs/rules''
     = Inr [(''limits'', [(''max_orders'', VInt 5)])]"
  by (simp_all add: load_strategy_configs_def load_rules_configs_def example_world_def
      example_files_def load_yaml_def example_types_def stem_def Let_def)

lemma example_Settings_new:
  "Settings_new example_externals example_merged s r
     = Inr (example_settings\<lparr>strategies := s, rules := r\<rparr>)"
  by (simp add: Settings_new_def example_merged_def example_settings_def Let_def required_def
      with_default_def at_field_def model_field.simps AppConfig_new_def DataConfig_new_def
      TradingConfig_new_def RiskConfig_new_def CacheConfig_new_def DataProviderConfig_new_def
      str_field_def float_field_def int_field_def fraction_field_def run_validator_def
      validate_log_level_def valid_levels_def validate_provider_name_def valid_providers_def
      validate_markets_def valid_markets_def example_externals_def Settings_fields_def
      float_0_1_def float_0_05_def)

lemma example_get_settings:
  "get_settings example_externals example_types example_world (Environment ''prod'')
     = Inr example_settings"
  by (simp add: get_settings_def example_merged_config example_loaders example_Settings_new
      example_settings_def)

subsection \<open>The merger on a base value that is not a mapping\<close>

text \<open>
  C1. The specification lets the merger recurse only where the override's value and the
  base's value are both mappings, and replace the base's value in every other case,
  returning normally. The loop tests \<^verbatim>\<open>key in result\<close> only: with the base
  \<^verbatim>\<open>{"app": "x"}\<close> and the override \<^verbatim>\<open>{"app": {"name": "y"}}\<close> it recurses into the
  string \<^verbatim>\<open>"x"\<close>, whose \<^verbatim>\<open>copy\<close> attribute does not exist, and the call ends with
  \<open>AttributeError\<close> where the specification has the result
  \<^verbatim>\<open>{"app": {"name": "y"}}\<close>.
\<close>

theorem merge_configs_scalar_base_raises:
  "merge_configs (VDict [(''app'', VStr ''x'')])
     (VDict [(''app'', VDict [(''name'', VStr ''y'')])])
   = Inl (AttributeError ''copy'')"
  by simp

subsection \<open>Keys of one side only, and the base left as it was\<close>




subsection \<open>The YAML loader\<close>

text \<open>
  C4. For every path: when there is no file the loader returns the empty mapping and
  raises nothing; when the file is an empty document it returns the empty mapping; when
  the parser rejects the file the loader raises the module's parse error, a \<open>ValueError\<close>
  whose message is \<^verbatim>\<open>Error parsing YAML file\<close>, the path, a colon and the parser's
  diagnostic.
\<close>

theorem load_yaml_outcomes:
  "(fs file_path = Absent \<longrightarrow> load_yaml fs file_path = Inr (VDict [])) \<and>
   (fs file_path = Document VNone \<longrightarrow> load_yaml fs file_path = Inr (VDict [])) \<and>
   (\<forall>diagnostic. fs file_path = Malformed diagnostic \<longrightarrow>
      load_yaml fs file_path =
        Inl (ValueError (''Error parsing YAML file '' @ file_path @ '': '' @ diagnostic)))"
  by (simp add: load_yaml_def)

theorem load_yaml_outcomes_witness:
  "load_yaml example_files ''configs/dev.yaml'' = Inr (VDict []) \<and>
   load_yaml example_files ''configs/empty.yaml'' = Inr (VDict []) \<and>
   load_yaml example_files ''configs/broken.yaml'' =
     Inl (ValueError
       ''Error parsing YAML file configs/broken.yaml: mapping values are not allowed here'')"
  using load_yaml_outcomes [of example_files "''configs/dev.yaml''"]
    load_yaml_outcomes [of example_files "''configs/empty.yaml''"]
    load_yaml_outcomes [of example_files "''configs/broken.yaml''"]
  by (simp add: example_files_def)

subsection \<open>The markets\<close>

text \<open>
  When \<^verbatim>\<open>MARKETS\<close> is set, the override's markets are the variable's value split at the
  commas.
\<close>

lemma markets_from_variable:
  assumes "vars ''MARKETS'' = Some s"
    and "env_overrides X vars config = Inr ov"
  shows "get2 ov ''trading'' ''markets'' VNone = Inr (VList (map VStr (split_on CHR '','' s)))"
  using assms
  by (auto simp: env_overrides_def getenv_def get2_def and_then_Inr_iff)

text \<open>
  C2. The specification has the markets fall back, when \<^verbatim>\<open>MARKETS\<close> is not set, to the
  value the base tree has, unchanged. The builder passes that value as the default of
  \<^verbatim>\<open>os.getenv\<close> and then calls \<^verbatim>\<open>__str__\<close> and \<^verbatim>\<open>split(",")\<close> on whatever comes back:
  with \<^verbatim>\<open>markets: [stocks, crypto]\<close> in \<^verbatim>\<open>default.yaml\<close> and no variable set, the list is
  printed as \<^verbatim>\<open>['stocks', 'crypto']\<close> and cut at its comma, and the configuration after
  the second merge has the markets \<^verbatim>\<open>["['stocks'", " 'crypto']"]\<close>.
\<close>

theorem markets_fallback_is_stringified:
  "and_then (merged_config X markets_world (Environment ''dev''))
     (\<lambda>config. get2 config ''trading'' ''markets'' VNone)
   = Inr (VList [VStr (''['stocks'' @ [CHR 0x27]), VStr '' 'crypto']''])"
  by (simp add: merged_config_def markets_world_def load_yaml_def env_overrides_def get2_def
      get3_def getenv_def float_0_1_def float_0_2_def float_0_05_def repr_str_def
      repr_char_def Let_def)

subsection \<open>A numeric variable that does not parse\<close>

lemma provider_override_any_env:
  "provider_override e1 p = Inr q \<Longrightarrow> \<exists>q'. provider_override e2 p = Inr q'"
  by (cases p) (auto simp: and_then_Inr_iff)

lemma provider_overrides_any_env:
  "provider_overrides e1 ps = Inr qs \<Longrightarrow> \<exists>qs'. provider_overrides e2 ps = Inr qs'"
proof (induction ps arbitrary: qs)
  case Nil
  then show ?case by simp
next
  case (Cons p ps)
  from Cons.prems obtain q qs1 where q: "provider_override e1 p = Inr q"
    and qs1: "provider_overrides e1 ps = Inr qs1"
    by (auto simp: and_then_Inr_iff)
  from provider_override_any_env [OF q] obtain q' where "provider_override e2 p = Inr q'"
    by blast
  moreover from Cons.IH [OF qs1] obtain qs' where "provider_overrides e2 ps = Inr qs'"
    by blast
  ultimately show ?case by simp
qed

lemma env_overrides_fails:
  assumes "nm \<in> set numeric_variables" and "vars nm = Some s" and "\<not> parses X nm s"
  shows "\<exists>e. env_overrides X vars config = Inl e"
  using assms
  by (auto simp: numeric_variables_def parses_def env_overrides_def and_then_case getenv_def
      split: sum.split)

lemma env_overrides_conversion_error:
  assumes "nm \<in> set numeric_variables" and "vars nm = Some s" and "\<not> parses X nm s"
    and "env_overrides X (vars(nm := None)) config = Inr ov"
  shows "env_overrides X vars config = Inl (conversion_error X nm s)"
proof -
  from assms(4) obtain ps elems qs where
    ps: "get2 config ''data'' ''providers'' (VList []) = Inr ps"
    and elems: "py_iter ps = Inr elems"
    and "provider_overrides (vars(nm := None)) elems = Inr qs"
    unfolding env_overrides_def by (auto simp: and_then_Inr_iff)
  then obtain qs' where qs': "provider_overrides vars elems = Inr qs'"
    using provider_overrides_any_env by blast
  show ?thesis
    using assms ps elems qs'
    by (auto simp: numeric_variables_def parses_def conversion_error_def env_overrides_def
        and_then_Inr_iff getenv_def)
qed

lemma merged_config_fails:
  assumes "\<And>config. \<exists>e. env_overrides X (environ W) config = Inl e"
  shows "\<exists>e. merged_config X W env = Inl e"
proof -
  have step: "\<exists>e. and_then (env_overrides X (environ W) config) (merge_configs config) = Inl e"
    for config
    using assms [of config] by auto
  show ?thesis
    unfolding merged_config_def
    by (rule and_then_fails, rule and_then_fails, rule and_then_fails) (rule step)
qed

text \<open>
  C8. Let one of \<^verbatim>\<open>MAX_POSITION_SIZE\<close>, \<^verbatim>\<open>MAX_DRAWDOWN\<close>, \<^verbatim>\<open>VAR_LIMIT\<close> and
  \<^verbatim>\<open>MAX_LATENCY_MS\<close> be set to a string that \<^verbatim>\<open>float\<close> (for the last one, \<^verbatim>\<open>int\<close>) does
  not parse. Then the override builder raises, on every configuration, and
  \<^verbatim>\<open>get_settings\<close> raises and returns no settings. Whenever the builder returns for the
  same configuration once the variable is taken away, what it raises is the conversion's
  own error, the \<open>ValueError\<close> of \<^verbatim>\<open>float\<close> or \<^verbatim>\<open>int\<close> with the message the interpreter
  gives it for that string: the module neither catches it nor wraps it.
\<close>

theorem unparseable_numeric_variable:
  assumes "nm \<in> set numeric_variables" and "environ W nm = Some s" and "\<not> parses X nm s"
  shows "(\<exists>e. env_overrides X (environ W) config = Inl e) \<and>
    ((\<exists>ov. env_overrides X ((environ W)(nm := None)) config = Inr ov) \<longrightarrow>
       env_overrides X (environ W) config = Inl (conversion_error X nm s)) \<and>
    (\<exists>e. get_settings X T W env = Inl e)"
proof -
  have fails: "\<exists>e. env_overrides X (environ W) c = Inl e" for c
    by (rule env_overrides_fails [where vars = "environ W", OF assms])
  from merged_config_fails [of X W env, OF fails]
  have "\<exists>e. get_settings X T W env = Inl e"
    by (auto simp: get_settings_def)
  with fails env_overrides_conversion_error [where vars = "environ W", OF assms]
  show ?thesis by blast
qed

theorem unparseable_numeric_variable_witness:
  "env_overrides example_externals (environ bad_limit_world) example_default
     = Inl (ValueError (''could not convert string to float: '' @ repr_str ''high'')) \<and>
   (\<exists>e. get_settings example_externals example_types bad_limit_world (Environment ''prod'')
      = Inl e)"
proof -
  have nm: "''VAR_LIMIT'' \<in> set numeric_variables" by (simp add: numeric_variables_def)
  have set: "environ bad_limit_world ''VAR_LIMIT'' = Some ''high''"
    by (simp add: bad_limit_world_def)
  have bad: "\<not> parses example_externals ''VAR_LIMIT'' ''high''"
    by (simp add: parses_def example_externals_def)
  have without: "\<exists>ov. env_overrides example_externals
      ((environ bad_limit_world)(''VAR_LIMIT'' := None)) example_default = Inr ov"
    by (simp add: env_overrides_def bad_limit_world_def example_world_def example_default_def
        get2_def get3_def getenv_def example_externals_def upper_def upper_char_def)
  from unparseable_numeric_variable [OF nm set bad, of example_default example_types
      "Environment ''prod''"] without
  show ?thesis by (simp add: conversion_error_def example_externals_def)
qed

subsection \<open>A file without its section\<close>

lemma load_section_files_append:
  "load_section_files fs sect cls (xs @ ys) acc =
     and_then (load_section_files fs sect cls xs acc) (\<lambda>acc'. load_section_files fs sect cls ys acc')"
proof (induction xs arbitrary: acc)
  case Nil
  then show ?case by simp
next
  case (Cons x xs)
  show ?case
  proof (cases "load_yaml fs x")
    case (Inl e)
    then show ?thesis by simp
  next
    case data: (Inr d)
    show ?thesis
    proof (cases "py_getitem d sect")
      case (Inl e)
      with data show ?thesis by simp
    next
      case kwargs: (Inr kw)
      show ?thesis
        using data kwargs Cons.IH by (cases "construct_kw cls kw") simp_all
    qed
  qed
qed

lemma py_getitem_no_section:
  "\<not> has_section d sect \<Longrightarrow>
   py_getitem d sect = Inl (if is_dict d then KeyError sect else TypeError)"
  by (cases d) (auto simp: map_of_eq_None_iff split: option.splits)

lemma load_section_files_no_section:
  assumes "load_yaml fs p = Inr d" and "\<not> has_section d sect"
  shows "load_section_files fs sect cls (p # rest) acc =
           Inl (if is_dict d then KeyError sect else TypeError)"
  using assms by (simp add: py_getitem_no_section)

lemma load_section_files_fails:
  assumes "p \<in> set ps" and "load_yaml fs p = Inr d" and "\<not> has_section d sect"
  shows "\<exists>e. load_section_files fs sect cls ps acc = Inl e"
proof -
  from assms(1) obtain xs ys where ps: "ps = xs @ p # ys" by (auto dest: split_list)
  show ?thesis
  proof (cases "load_section_files fs sect cls xs acc")
    case (Inl e)
    then show ?thesis by (simp add: ps load_section_files_append)
  next
    case (Inr acc')
    have "load_section_files fs sect cls (p # ys) acc' =
            Inl (if is_dict d then KeyError sect else TypeError)"
      by (rule load_section_files_no_section [OF assms(2,3)])
    with Inr show ?thesis
      by (simp only: ps load_section_files_append and_then.simps) blast
  qed
qed

lemma load_section_files_first_failure:
  assumes "ps = xs @ p # ys" and "load_section_files fs sect cls xs [] = Inr acc"
    and "load_yaml fs p = Inr d" and "\<not> has_section d sect"
  shows "load_section_files fs sect cls ps [] =
           Inl (if is_dict d then KeyError sect else TypeError)"
proof -
  have "load_section_files fs sect cls (p # ys) acc =
          Inl (if is_dict d then KeyError sect else TypeError)"
    by (rule load_section_files_no_section [OF assms(3,4)])
  with assms(2) show ?thesis
    by (simp only: assms(1) load_section_files_append and_then.simps)
qed

lemma section_loader_fails:
  assumes "p \<in> set ps" and "load_yaml fs p = Inr d" and "\<not> has_section d sect"
  shows "(\<exists>e. load_section_files fs sect cls ps [] = Inl e) \<and>
     (\<forall>xs ys acc. ps = xs @ p # ys \<and> load_section_files fs sect cls xs [] = Inr acc \<longrightarrow>
        load_section_files fs sect cls ps [] =
          Inl (if is_dict d then KeyError sect else TypeError))"
  using load_section_files_fails [OF assms]
    load_section_files_first_failure [OF _ _ assms(2,3)]
  by blast

text \<open>
  C7, as the module has it. Let a file that the scan of the directory yields load to a
  document without the top-level section (\<^verbatim>\<open>strategy\<close> for the strategy loader,
  \<^verbatim>\<open>risk\<close> for the rules loader). Then the loader raises and returns no mapping. When the
  files scanned before it have loaded, what it raises is the error of the subscription
  \<^verbatim>\<open>data[...]\<close> itself: a \<open>KeyError\<close> that carries the section's name when the document
  is a mapping, a \<open>TypeError\<close> when it is not. The loaders catch nothing and build no
  message of their own.
\<close>

theorem loaders_missing_section:
  assumes "p \<in> set (glob_yaml W dir)" and "load_yaml (files W) p = Inr d"
  shows
    "(\<not> has_section d ''strategy'' \<longrightarrow>
        (\<exists>e. load_strategy_configs T W dir = Inl e) \<and>
        (\<forall>xs ys acc. glob_yaml W dir = xs @ p # ys \<and>
           load_section_files (files W) ''strategy'' (StrategyConfig T) xs [] = Inr acc \<longrightarrow>
           load_strategy_configs T W dir =
             Inl (if is_dict d then KeyError ''strategy'' else TypeError))) \<and>
     (\<not> has_section d ''risk'' \<longrightarrow>
        (\<exists>e. load_rules_configs T W dir = Inl e) \<and>
        (\<forall>xs ys acc. glob_yaml W dir = xs @ p # ys \<and>
           load_section_files (files W) ''risk'' (RiskPolicy T) xs [] = Inr acc \<longrightarrow>
           load_rules_configs T W dir =
             Inl (if is_dict d then KeyError ''risk'' else TypeError)))"
  unfolding load_strategy_configs_def load_rules_configs_def
  using section_loader_fails [OF assms(1,2), of "''strategy''" "StrategyConfig T"]
    section_loader_fails [OF assms(1,2), of "''risk''" "RiskPolicy T"]
  by blast

theorem loaders_missing_section_witness:
  "load_strategy_configs example_types missing_section_world ''configs/strategies''
     = Inl (KeyError ''strategy'') \<and>
   load_rules_configs example_types missing_section_world ''configs/rules''
     = Inl (KeyError ''risk'')"
proof -
  have s: "''configs/strategies/momentum.yaml'' \<in> set (glob_yaml missing_section_world ''configs/strategies'')"
    "load_yaml (files missing_section_world) ''configs/strategies/momentum.yaml''
       = Inr (VDict [(''window'', VInt 20)])"
    "\<not> has_section (VDict [(''window'', VInt 20)]) ''strategy''"
    "glob_yaml missing_section_world ''configs/strategies'' = [] @ ''configs/strategies/momentum.yaml'' # []"
    by (simp_all add: missing_section_world_def load_yaml_def)
  have r: "''configs/rules/limits.yaml'' \<in> set (glob_yaml missing_section_world ''configs/rules'')"
    "load_yaml (files missing_section_world) ''configs/rules/limits.yaml''
       = Inr (VDict [(''max_orders'', VInt 5)])"
    "\<not> has_section (VDict [(''max_orders'', VInt 5)]) ''risk''"
    "glob_yaml missing_section_world ''configs/rules'' = [] @ ''configs/rules/limits.yaml'' # []"
    by (simp_all add: missing_section_world_def load_yaml_def)
  from loaders_missing_section [OF s(1,2), of example_types] s(3,4)
  have "load_strategy_configs example_types missing_section_world ''configs/strategies''
     = Inl (KeyError ''strategy'')" by fastforce
  moreover from loaders_missing_section [OF r(1,2), of example_types] r(3,4)
  have "load_rules_configs example_types missing_section_world ''configs/rules''
     = Inl (KeyError ''risk'')" by fastforce
  ultimately show ?thesis by simp
qed

text \<open>
  The claim as the specification states it, with a validation error that names the file,
  fails on a directory with one file \<^verbatim>\<open>momentum.yaml\<close> that holds \<^verbatim>\<open>window: 20\<close>:
  the loader raises \<^verbatim>\<open>KeyError('strategy')\<close>, and the path does not occur in its text.
\<close>

theorem missing_section_error_has_no_path:
  "load_strategy_configs example_types missing_section_world ''configs/strategies''
     = Inl (KeyError ''strategy'') \<and>
   \<not> occurs_in ''configs/strategies/momentum.yaml'' (err_text (KeyError ''strategy'')) \<and>
   load_rules_configs example_types missing_section_world ''configs/rules''
     = Inl (KeyError ''risk'') \<and>
   \<not> occurs_in ''configs/rules/limits.yaml'' (err_text (KeyError ''risk''))"
  by (simp add: load_strategy_configs_def load_rules_configs_def missing_section_world_def
      load_yaml_def repr_str_def repr_char_def Let_def)

subsection \<open>The three fractions\<close>

lemma errs_of_at_field: "errs_of (at_field f r) = [] \<longleftrightarrow> errs_of r = []"
  by (cases r) (simp_all add: at_field_def)

lemma errs_of_required:
  "map_of kv f = Some v \<Longrightarrow> errs_of (required kv f check) = [] \<longleftrightarrow> errs_of (check v) = []"
  by (simp add: required_def errs_of_at_field)

lemma errs_of_fraction_field:
  assumes "as_float X (VFloat x) = Some x"
  shows "errs_of (fraction_field X (VFloat x)) = [] \<longleftrightarrow> in_unit_interval x"
  using assms by (cases x) (simp_all add: fraction_field_def float_field_def)

lemma errs_of_RiskConfig_new:
  "errs_of (RiskConfig_new X kv) =
     errs_of (required kv ''max_drawdown'' (fraction_field X)) @
     errs_of (required kv ''var_limit'' (fraction_field X)) @
     errs_of (with_default kv ''max_latency_ms'' None (optional (int_field X)))"
  by (simp add: RiskConfig_new_def Let_def)

lemma errs_of_TradingConfig_new:
  "errs_of (TradingConfig_new X kv) =
     errs_of (required kv ''markets'' (\<lambda>v.
        and_then (list_field (str_field X) v) (run_validator validate_markets))) @
     errs_of (required kv ''max_position_size'' (fraction_field X)) @
     errs_of (required kv ''risk'' (model_field (RiskConfig_new X)))"
  by (simp add: TradingConfig_new_def Let_def)

lemma Settings_new_accepts_iff:
  "(\<exists>S. Settings_new X config s r = Inr S) \<longleftrightarrow>
     errs_of (required config ''app'' (model_field (AppConfig_new X))) = [] \<and>
     errs_of (required config ''data'' (model_field (DataConfig_new X))) = [] \<and>
     errs_of (required config ''trading'' (model_field (TradingConfig_new X))) = [] \<and>
     (\<forall>k \<in> fst ` set config. k \<in> set Settings_fields)"
  by (auto simp: Settings_new_def Let_def filter_empty_conv)

lemma required_update_other:
  "f \<noteq> k \<Longrightarrow> required (AList.update k v kv) f check = required kv f check"
  by (simp add: required_def update_conv')

lemma with_default_update_other:
  "f \<noteq> k \<Longrightarrow> with_default (AList.update k v kv) f dflt check = with_default kv f dflt check"
  by (simp add: with_default_def update_conv')

lemma Settings_new_with_fractions:
  assumes coerce: "\<forall>x. as_float X (VFloat x) = Some x"
  shows "(\<exists>S. Settings_new X (with_fractions cfg tr rk p d v) s r = Inr S) \<longleftrightarrow>
     (errs_of (required cfg ''app'' (model_field (AppConfig_new X))) = [] \<and>
      errs_of (required cfg ''data'' (model_field (DataConfig_new X))) = [] \<and>
      (\<forall>k \<in> fst ` set cfg. k \<in> set Settings_fields) \<and>
      errs_of (required tr ''markets'' (\<lambda>v.
        and_then (list_field (str_field X) v) (run_validator validate_markets))) = [] \<and>
      errs_of (with_default rk ''max_latency_ms'' None (optional (int_field X))) = []) \<and>
     in_unit_interval p \<and> in_unit_interval d \<and> in_unit_interval v"
proof -
  let ?rk = "AList.update ''max_drawdown'' (VFloat d) (AList.update ''var_limit'' (VFloat v) rk)"
  let ?tr = "AList.update ''max_position_size'' (VFloat p) (AList.update ''risk'' (VDict ?rk) tr)"
  have risk: "errs_of (RiskConfig_new X ?rk) = [] \<longleftrightarrow>
      in_unit_interval d \<and> in_unit_interval v \<and>
      errs_of (with_default rk ''max_latency_ms'' None (optional (int_field X))) = []"
    using coerce
    by (simp add: errs_of_RiskConfig_new errs_of_required update_conv' errs_of_fraction_field
        with_default_update_other)
  have trading: "errs_of (TradingConfig_new X ?tr) = [] \<longleftrightarrow>
      errs_of (required tr ''markets'' (\<lambda>v.
        and_then (list_field (str_field X) v) (run_validator validate_markets))) = [] \<and>
      in_unit_interval p \<and> errs_of (RiskConfig_new X ?rk) = []"
    using coerce
    by (simp add: errs_of_TradingConfig_new errs_of_required update_conv' errs_of_fraction_field
        required_update_other)
  have trad: "errs_of (required (with_fractions cfg tr rk p d v) ''trading''
                (model_field (TradingConfig_new X))) = [] \<longleftrightarrow>
             errs_of (TradingConfig_new X ?tr) = []"
    by (simp add: with_fractions_def errs_of_required update_conv')
  have keys: "(\<forall>k \<in> fst ` set (with_fractions cfg tr rk p d v). k \<in> set Settings_fields) \<longleftrightarrow>
      (\<forall>k \<in> fst ` set cfg. k \<in> set Settings_fields)"
    by (simp add: with_fractions_def dom_update Settings_fields_def)
  have others:
    "required (with_fractions cfg tr rk p d v) ''app'' (model_field (AppConfig_new X))
       = required cfg ''app'' (model_field (AppConfig_new X))"
    "required (with_fractions cfg tr rk p d v) ''data'' (model_field (DataConfig_new X))
       = required cfg ''data'' (model_field (DataConfig_new X))"
    by (simp_all add: with_fractions_def required_update_other)
  show ?thesis
    unfolding Settings_new_accepts_iff trad keys others trading risk by blast
qed

text \<open>
  C6. Take any tree that \<^verbatim>\<open>Settings\<close> accepts when \<^verbatim>\<open>max_position_size\<close>,
  \<^verbatim>\<open>max_drawdown\<close> and \<^verbatim>\<open>var_limit\<close> are \<^verbatim>\<open>1.0\<close> (so \<^verbatim>\<open>1.0\<close> is accepted), and put
  three floats in their place. The construction succeeds exactly when each of the three
  lies in the interval from 0, excluded, to 1, included; otherwise it fails with the
  validation error (\<^verbatim>\<open>1.5\<close> and \<^verbatim>\<open>0\<close> are rejected). The schema library is taken to pass a
  float through unchanged where a float is asked for.
\<close>

theorem Settings_new_fraction_ranges:
  assumes coerce: "\<forall>x. as_float X (VFloat x) = Some x"
    and reference:
      "Settings_new X (with_fractions cfg tr rk (Fin 1) (Fin 1) (Fin 1)) s r = Inr S1"
  shows "(\<exists>S. Settings_new X (with_fractions cfg tr rk p d v) s r = Inr S) \<longleftrightarrow>
         in_unit_interval p \<and> in_unit_interval d \<and> in_unit_interval v"
proof -
  have "\<exists>S. Settings_new X (with_fractions cfg tr rk (Fin 1) (Fin 1) (Fin 1)) s r = Inr S"
    using reference by blast
  then show ?thesis
    unfolding Settings_new_with_fractions [OF coerce] by simp
qed

theorem Settings_new_fraction_ranges_witness:
  "(\<exists>S. Settings_new example_externals
          (with_fractions example_merged [(''markets'', VList [VStr ''stocks''])] []
             (Fin 1) (Fin 1) (Fin 1))
          ([] :: (string \<times> unit) list) ([] :: (string \<times> unit) list) = Inr S) \<and>
   (\<nexists>S. Settings_new example_externals
          (with_fractions example_merged [(''markets'', VList [VStr ''stocks''])] []
             (Fin 1) (Fin (3 / 2)) (Fin 1))
          ([] :: (string \<times> unit) list) ([] :: (string \<times> unit) list) = Inr S) \<and>
   (\<nexists>S. Settings_new example_externals
          (with_fractions example_merged [(''markets'', VList [VStr ''stocks''])] []
             (Fin 1) (Fin 0) (Fin 1))
          ([] :: (string \<times> unit) list) ([] :: (string \<times> unit) list) = Inr S)"
proof -
  have coerce: "\<forall>x. as_float example_externals (VFloat x) = Some x"
    by (simp add: example_externals_def)
  have "\<exists>S1. Settings_new example_externals
          (with_fractions example_merged [(''markets'', VList [VStr ''stocks''])] []
             (Fin 1) (Fin 1) (Fin 1))
          ([] :: (string \<times> unit) list) ([] :: (string \<times> unit) list) = Inr S1"
    by (simp add: with_fractions_def Settings_new_def example_merged_def Let_def required_def
      with_default_def at_field_def AppConfig_new_def DataConfig_new_def
      TradingConfig_new_def RiskConfig_new_def CacheConfig_new_def DataProviderConfig_new_def
      str_field_def float_field_def int_field_def fraction_field_def run_validator_def
      validate_log_level_def valid_levels_def validate_provider_name_def valid_providers_def
      validate_markets_def valid_markets_def example_externals_def Settings_fields_def)
  then obtain S1 where reference: "Settings_new example_externals
          (with_fractions example_merged [(''markets'', VList [VStr ''stocks''])] []
             (Fin 1) (Fin 1) (Fin 1))
          ([] :: (string \<times> unit) list) ([] :: (string \<times> unit) list) = Inr S1"
    by blast
  from Settings_new_fraction_ranges [OF coerce reference, of "Fin 1" "Fin 1" "Fin 1"]
    Settings_new_fraction_ranges [OF coerce reference, of "Fin 1" "Fin (3 / 2)" "Fin 1"]
    Settings_new_fraction_ranges [OF coerce reference, of "Fin 1" "Fin 0" "Fin 1"]
  show ?thesis by simp
qed

subsection \<open>A keyword that is no field\<close>

text \<open>
  C5. When the tree given to \<^verbatim>\<open>Settings\<close> has a top-level key that is none of
  \<^verbatim>\<open>app\<close>, \<^verbatim>\<open>data\<close>, \<^verbatim>\<open>trading\<close>, \<^verbatim>\<open>strategies\<close> and \<^verbatim>\<open>rules\<close>, the construction
  fails, and the failures it reports include this key as a forbidden extra.
\<close>

theorem Settings_new_forbids_extra:
  assumes "k \<in> set (map fst config)" and "k \<notin> set Settings_fields"
  shows "\<exists>es. Settings_new X config strategies_arg rules_arg = Inl es \<and>
              ([k], ExtraForbidden) \<in> set es"
proof -
  let ?extra = "map (\<lambda>k. ([k], ExtraForbidden))
                  (filter (\<lambda>k. k \<notin> set Settings_fields) (map fst config))"
  let ?es = "errs_of (required config ''app'' (model_field (AppConfig_new X))) @
             errs_of (required config ''data'' (model_field (DataConfig_new X))) @
             errs_of (required config ''trading'' (model_field (TradingConfig_new X))) @ ?extra"
  have "([k], ExtraForbidden) \<in> set ?extra" using assms by auto
  then have mem: "([k], ExtraForbidden) \<in> set ?es" by simp
  then have "?es \<noteq> []" by (metis empty_iff empty_set)
  then have "Settings_new X config strategies_arg rules_arg = Inl ?es"
    by (simp add: Settings_new_def Let_def)
  with mem show ?thesis by blast
qed

theorem Settings_new_forbids_extra_witness:
  "\<exists>es. Settings_new example_externals (example_merged @ [(''foo'', VStr ''bar'')])
           ([] :: (string \<times> unit) list) ([] :: (string \<times> unit) list) = Inl es \<and>
        ([''foo''], ExtraForbidden) \<in> set es"
  using Settings_new_forbids_extra [of "''foo''" "example_merged @ [(''foo'', VStr ''bar'')]"
      example_externals "[] :: (string \<times> unit) list" "[] :: (string \<times> unit) list"]
  by (simp add: example_merged_def Settings_fields_def)

subsection \<open>The cached settings\<close>

text \<open>
  C3. When a call of \<^verbatim>\<open>init_settings\<close> has returned settings, the next call returns the
  same settings and leaves the global as it is, whatever environment it is given and
  whatever the files, the variables and the libraries have become: its result does not
  depend on them, so the pipeline is not run again.
\<close>

theorem init_settings_cached:
  assumes "init_settings X T W cached env = (Inr s, cached')"
  shows "init_settings X' T' W' cached' env' = (Inr s, cached')"
  using assms
  by (auto simp: init_settings_def split: option.splits sum.splits)

theorem init_settings_cached_witness:
  "init_settings example_externals example_types example_world None (Environment ''prod'')
     = (Inr example_settings, Some example_settings) \<and>
   init_settings example_externals example_types markets_world (Some example_settings)
       (Environment ''dev'')
     = (Inr example_settings, Some example_settings)"
proof -
  have first: "init_settings example_externals example_types example_world None
      (Environment ''prod'') = (Inr example_settings, Some example_settings)"
    by (simp add: init_settings_def example_get_settings)
  from init_settings_cached [OF first, of example_externals example_types markets_world
      "Environment ''dev''"] first
  show ?thesis by simp
qed

subsection \<open>The order of the classes\<close>

text \<open>
  C10. The class statement of \<^verbatim>\<open>Settings\<close> (line 62) evaluates the annotation
  \<^verbatim>\<open>DataConfig\<close> of its field \<^verbatim>\<open>data\<close>, and \<^verbatim>\<open>DataConfig\<close> is bound by the class
  statement after it (line 73). So executing the module raises
  \<^verbatim>\<open>NameError: name 'DataConfig' is not defined\<close>, as an import and as a script, and
  \<^verbatim>\<open>get_settings\<close> and \<^verbatim>\<open>init_settings\<close>, which are bound after that statement, cannot be
  called: whatever their bodies would return, a caller gets the \<open>NameError\<close>.
\<close>

theorem config_module_raises_NameError:
  "exec_module builtin_names (config_module script) = Inl (NameError ''DataConfig'') \<and>
   call_in_module script ''get_settings'' (get_settings X T W env) = Inl (NameError ''DataConfig'') \<and>
   call_in_module script ''init_settings'' (init_settings X T W cached env)
     = Inl (NameError ''DataConfig'')"
  by (simp add: call_in_module_def config_module_def exec_stmt_def builtin_names_def)

end
